theory Spec2Isabelle
  imports Complex_Main "HOL-Library.Sublist"
begin

section \<open>Values, errors and panics\<close>

text \<open>
  The package works on Go strings (byte sequences, here \<^typ>\<open>string\<close>), on \<open>int\<close>,
  \<open>int64\<close> and \<open>uint64\<close> values (here \<^typ>\<open>int\<close>, with the ranges written out where
  \<open>strconv.ParseInt\<close> enforces them) and on \<open>float64\<close> coordinates. A coordinate is
  modelled by the rational number it denotes: the code only compares coordinates with each
  other and with constants. The table entries are the decimal constants of the source,
  which the compiler rounds to \<open>float64\<close>, and the midpoint of two neighbouring entries
  is the exact one, where the code rounds after each operation: a coordinate within a
  rounding error of a midpoint can fall into the neighbouring column in the code. What is
  proved of the classifier below rests on the order of its checks and on the two ends of
  the table, not on the midpoints. Infinities and NaN are not values of the model.

  A Go function either returns or panics. \<open>Returns\<close> carries what the function returns
  (for a function with an \<open>error\<close> result, a tuple whose error component is an
  \<^typ>\<open>'e option\<close>, \<open>None\<close> for \<open>nil\<close>); \<open>Panics\<close> carries the panic.
\<close>

datatype panic =
    InvalidPos rat
  | NotExpected
  | NegativeRepeat
  | NegativeLen

datatype 'a outcome = Returns 'a | Panics panic

section \<open>Position classifier\<close>

definition positions :: "rat list" where
  "positions = [28, 133.71, 359.24, 479.05, 528.38, 655.88, 685.78, 722.22]"

text \<open>The \<open>for\<close> loop of \<open>findPositionIdx\<close>, started at index \<open>i\<close>.\<close>

function findPositionLoop :: "rat \<Rightarrow> nat \<Rightarrow> int" where
  "findPositionLoop pos i =
     (if i < length positions - 1 then
        (let halfway = positions ! i + (positions ! (i + 1) - positions ! i) / 2
         in if pos < halfway then int i else findPositionLoop pos (i + 1))
      else int (length positions - 1))"
  by pat_completeness auto
termination
  by (relation "measure (\<lambda>(pos, i). length positions - 1 - i)") auto

declare findPositionLoop.simps [simp del]

definition findPositionIdx :: "rat \<Rightarrow> int outcome" where
  "findPositionIdx pos =
     (if pos < 0 \<or> pos > 1100 then Panics (InvalidPos pos)
      else if pos \<le> positions ! 0 then Returns 0
      else if pos \<ge> positions ! (length positions - 1) then Returns (int (length positions - 1))
      else Returns (findPositionLoop pos 0))"

definition howManyTabs :: "rat \<Rightarrow> rat \<Rightarrow> int outcome" where
  "howManyTabs prevPos curPos =
     (if prevPos \<ge> curPos then Panics NotExpected
      else case findPositionIdx prevPos of
             Panics p \<Rightarrow> Panics p
           | Returns idx \<Rightarrow>
               (case findPositionIdx curPos of
                  Panics p \<Rightarrow> Panics p
                | Returns idx2 \<Rightarrow> Returns (idx2 - idx)))"

section \<open>Library functions on strings\<close>

abbreviation TAB :: char where "TAB \<equiv> CHR 0x09"
abbreviation NL :: char where "NL \<equiv> CHR 0x0A"
abbreviation CR :: char where "CR \<equiv> CHR 0x0D"

text \<open>
  \<open>strings.Split(s, sep)\<close> for a separator of one byte, the only use the package makes of
  it: the pieces between the occurrences of the separator, at least one piece.
\<close>

fun Split :: "string \<Rightarrow> char \<Rightarrow> string list" where
  "Split [] sep = [[]]"
| "Split (c # cs) sep =
     (let pieces = Split cs sep
      in if c = sep then [] # pieces
         else (c # hd pieces) # tl pieces)"

text \<open>\<open>strings.Contains(s, substr)\<close>: \<open>substr\<close> starts at some position of \<open>s\<close>.\<close>

fun Contains :: "string \<Rightarrow> string \<Rightarrow> bool" where
  "Contains [] substr = (substr = [])"
| "Contains (c # cs) substr = (prefix substr (c # cs) \<or> Contains cs substr)"

text \<open>\<open>strings.HasPrefix(s, prefix)\<close>.\<close>

definition HasPrefix :: "string \<Rightarrow> string \<Rightarrow> bool" where
  "HasPrefix s p = prefix p s"

text \<open>
  \<open>strings.Repeat(s, count)\<close> panics on a negative count.
\<close>

definition Repeat :: "string \<Rightarrow> int \<Rightarrow> string outcome" where
  "Repeat s count =
     (if count < 0 then Panics NegativeRepeat
      else Returns (concat (replicate (nat count) s)))"

text \<open>
  \<open>strconv.ParseInt(s, 10, 64)\<close> and the \<open>strconv.ParseUint\<close> it calls: the digit loop
  stops with a syntax error at the first byte that is not a decimal digit and with a range
  error as soon as the value leaves \<open>uint64\<close>; a syntax error returns 0, a range error the
  nearest bound.
\<close>

datatype numError = ErrSyntax | ErrRange

definition maxUint64 :: int where
  "maxUint64 = 2 ^ 64 - 1"

fun parseUintLoop :: "int \<Rightarrow> string \<Rightarrow> int \<times> numError option" where
  "parseUintLoop n [] = (n, None)"
| "parseUintLoop n (c # cs) =
     (if \<not> (of_char (CHR ''0'') \<le> (of_char c :: int) \<and> (of_char c :: int) \<le> of_char (CHR ''9''))
      then (0, Some ErrSyntax)
      else if n \<ge> maxUint64 div 10 + 1 then (maxUint64, Some ErrRange)
      else let n1 = n * 10 + (of_char c - of_char (CHR ''0''))
           in if n1 > maxUint64 then (maxUint64, Some ErrRange)
              else parseUintLoop n1 cs)"

definition ParseUint :: "string \<Rightarrow> int \<times> numError option" where
  "ParseUint s = (if s = [] then (0, Some ErrSyntax) else parseUintLoop 0 s)"

definition ParseInt :: "string \<Rightarrow> int \<times> numError option" where
  "ParseInt s =
     (if s = [] then (0, Some ErrSyntax)
      else
        let neg = (hd s = CHR ''-'');
            s1 = (if hd s = CHR ''+'' \<or> hd s = CHR ''-'' then tl s else s);
            (un, err) = ParseUint s1;
            cutoff = (2 :: int) ^ 63
        in if err \<noteq> None \<and> err \<noteq> Some ErrRange then (0, err)
           else if \<not> neg \<and> un \<ge> cutoff then (cutoff - 1, Some ErrRange)
           else if neg \<and> un > cutoff then (- cutoff, Some ErrRange)
           else (if neg then - un else un, None))"

text \<open>
  A \<open>bufio.Scanner\<close> with the default split function \<open>ScanLines\<close>, run to its end over
  an in-memory string: the tokens its \<open>Scan\<close> loop delivers. A line ends at a newline or
  at the end of the input, loses one trailing carriage return, and a last empty line is no
  token. A line of \<open>MaxScanTokenSize\<close> bytes or more does not fit the buffer: \<open>Scan\<close>
  returns false there (\<open>ErrTooLong\<close>), which ends the loop of a caller that does not
  look at \<open>Err()\<close>.
\<close>

definition MaxScanTokenSize :: int where
  "MaxScanTokenSize = 64 * 1024"

definition dropCR :: "string \<Rightarrow> string" where
  "dropCR data = (if data \<noteq> [] \<and> last data = CR then butlast data else data)"

function scanLines :: "string \<Rightarrow> string list" where
  "scanLines data =
     (if data = [] then []
      else let raw = takeWhile (\<lambda>c. c \<noteq> NL) data
           in if int (length raw) \<ge> MaxScanTokenSize then []
              else dropCR raw # scanLines (drop (length raw + 1) data))"
  by pat_completeness auto
termination
  by (relation "measure length") auto

declare scanLines.simps [simp del]

section \<open>Text reconstructor\<close>

text \<open>
  The operand types of the PDF library that the code distinguishes, and an operation of a
  content stream: its operator name and its operands.
\<close>

datatype pdfobj =
    PdfObjectBool bool
  | PdfObjectInteger int
  | PdfObjectFloat rat
  | PdfObjectString string
  | PdfObjectName string
  | PdfObjectNull
  | PdfObjectArray "pdfobj list"

record operation =
  Operand :: string
  Params :: "pdfobj list"

text \<open>
  The errors: the sentinel \<open>io.EOF\<close>; the error of \<open>parseLine\<close>, whose message quotes
  the line; the two errors of \<open>extractText\<close>, whose messages are formatted with \<open>%T\<close>
  and so hold the name of the operand's type and nothing else of the operand; and an error
  that a library call returned.
\<close>

datatype error =
    EOF
  | InvalidLine string
  | NoArray string
  | NotString string
  | LibraryError string

text \<open>What \<open>%T\<close> prints for an operand.\<close>

fun typeName :: "pdfobj \<Rightarrow> string" where
  "typeName (PdfObjectBool b) = ''*core.PdfObjectBool''"
| "typeName (PdfObjectInteger n) = ''*core.PdfObjectInteger''"
| "typeName (PdfObjectFloat f) = ''*core.PdfObjectFloat''"
| "typeName (PdfObjectString s) = ''*core.PdfObjectString''"
| "typeName (PdfObjectName s) = ''*core.PdfObjectName''"
| "typeName PdfObjectNull = ''*core.PdfObjectNull''"
| "typeName (PdfObjectArray l) = ''*core.PdfObjectArray''"

text \<open>
  The local variables of \<open>extractText\<close> that its loop updates; \<open>txtBuf\<close> is the
  source's \<open>txt\<close>.
\<close>

record cursor =
  xPos :: rat
  yPos :: rat
  inText :: bool
  txtBuf :: string

text \<open>
  What one part of the loop body does with the cursor: go on with the rest of the body,
  \<open>continue\<close> with the next operation, return an error, or panic.
\<close>

datatype flow = Proceed cursor | Continue cursor | Stop error | Abort panic

text \<open>
  The conversion \<open>float64(n)\<close> of an \<open>int64\<close>: exact up to \<open>2^53\<close> in absolute value,
  and above that rounded to 53 significant bits, to the nearest value and to the even one
  of two nearest. \<open>excessBits a e\<close> counts from \<open>e\<close> up to the number of low bits that
  \<open>a\<close> has beyond 53.
\<close>

function excessBits :: "int \<Rightarrow> nat \<Rightarrow> nat" where
  "excessBits a e = (if a < 2 ^ (53 + e) \<or> 11 \<le> e then e else excessBits a (e + 1))"
  by pat_completeness auto
termination
  by (relation "measure (\<lambda>(a, e). 11 - e)") auto

declare excessBits.simps [simp del]

definition float64OfInt :: "int \<Rightarrow> rat" where
  "float64OfInt n =
     (let a = \<bar>n\<bar>
      in if a \<le> 2 ^ 53 then of_int n
         else
           let e = excessBits a 0;
               q = a div 2 ^ e;
               r = a mod 2 ^ e;
               q1 = (if 2 * r > 2 ^ e \<or> (2 * r = 2 ^ e \<and> odd q) then q + 1 else q)
           in of_int (sgn n * q1 * 2 ^ e))"

text \<open>
  A \<open>Tm\<close> operand read as a float: a \<open>PdfObjectFloat\<close>, or else a \<open>PdfObjectInteger\<close>
  converted; any other operand makes the loop \<open>continue\<close>.
\<close>

definition asFloat :: "pdfobj \<Rightarrow> rat option" where
  "asFloat obj =
     (case obj of
        PdfObjectFloat f \<Rightarrow> Some f
      | PdfObjectInteger n \<Rightarrow> Some (float64OfInt n)
      | _ \<Rightarrow> None)"

definition textMatrix :: "cursor \<Rightarrow> operation \<Rightarrow> flow" where
  "textMatrix st opn =
     (if Operand opn \<noteq> ''Tm'' then Proceed st
      else if length (Params opn) \<noteq> 6 then Continue st
      else case asFloat (Params opn ! 4) of
        None \<Rightarrow> Continue st
      | Some xfloat \<Rightarrow>
         (case asFloat (Params opn ! 5) of
            None \<Rightarrow> Continue st
          | Some yfloat \<Rightarrow>
             if yPos st \<noteq> - 1 \<and> yPos st > yfloat
             then Continue (st\<lparr>txtBuf := txtBuf st @ [NL], xPos := xfloat, yPos := yfloat\<rparr>)
             else
               let st1 = (if yPos st = - 1 then st\<lparr>yPos := yfloat\<rparr> else st)
               in if xPos st1 = - 1 then Proceed (st1\<lparr>xPos := xfloat\<rparr>)
                  else if xPos st1 < xfloat then
                    (case howManyTabs (xPos st1) xfloat of
                       Panics p \<Rightarrow> Abort p
                     | Returns numTabs \<Rightarrow>
                        (case Repeat [TAB] numTabs of
                           Panics p \<Rightarrow> Abort p
                         | Returns tabs \<Rightarrow>
                             Proceed (st1\<lparr>txtBuf := txtBuf st1 @ tabs, xPos := xfloat\<rparr>)))
                  else Proceed st1))"

text \<open>One iteration of the loop over the array of a \<open>TJ\<close>: the type switch has no default.\<close>

fun showElem :: "string \<Rightarrow> pdfobj \<Rightarrow> string" where
  "showElem t (PdfObjectString v) = t @ v"
| "showElem t (PdfObjectFloat v) = (if v < - 100 then t @ '' '' else t)"
| "showElem t (PdfObjectInteger v) = (if v < - 100 then t @ '' '' else t)"
| "showElem t _ = t"

definition showText :: "cursor \<Rightarrow> operation \<Rightarrow> flow" where
  "showText st opn =
     (if inText st \<and> Operand opn = ''TJ'' then
        (if length (Params opn) < 1 then Continue st
         else case Params opn ! 0 of
                PdfObjectArray paramList \<Rightarrow> Proceed (st\<lparr>txtBuf := foldl showElem (txtBuf st) paramList\<rparr>)
              | obj \<Rightarrow> Stop (NoArray (typeName obj)))
      else if inText st \<and> Operand opn = ''Tj'' then
        (if length (Params opn) < 1 then Continue st
         else case Params opn ! 0 of
                PdfObjectString param \<Rightarrow> Proceed (st\<lparr>txtBuf := txtBuf st @ param\<rparr>)
              | obj \<Rightarrow> Stop (NotString (typeName obj)))
      else Proceed st)"

text \<open>The body of the loop over the operations.\<close>

definition step :: "cursor \<Rightarrow> operation \<Rightarrow> flow" where
  "step st opn =
     (let st1 = (if Operand opn = ''BT'' then st\<lparr>inText := True\<rparr>
                 else if Operand opn = ''ET'' then st\<lparr>inText := False\<rparr>
                 else st)
      in case textMatrix st1 opn of
           Proceed st2 \<Rightarrow>
             (let st3 = (if Operand opn = ''Td'' \<or> Operand opn = ''TD'' \<or> Operand opn = ''T*''
                         then st2\<lparr>txtBuf := txtBuf st2 @ [NL]\<rparr> else st2)
              in showText st3 opn)
         | other \<Rightarrow> other)"

fun runOps :: "cursor \<Rightarrow> operation list \<Rightarrow> (string \<times> error option) outcome" where
  "runOps st [] = Returns (txtBuf st, None)"
| "runOps st (opn # ops) =
     (case step st opn of
        Proceed st' \<Rightarrow> runOps st' ops
      | Continue st' \<Rightarrow> runOps st' ops
      | Stop e \<Rightarrow> Returns ('''', Some e)
      | Abort p \<Rightarrow> Panics p)"

text \<open>
  \<open>extractText\<close> takes the parser; the model takes what \<open>parser.Parse()\<close> returns.
\<close>

definition extractText :: "error + operation list \<Rightarrow> (string \<times> error option) outcome" where
  "extractText parsed =
     (case parsed of
        Inl err \<Rightarrow> Returns ('''', Some err)
      | Inr operations \<Rightarrow>
          runOps \<lparr>xPos = - 1, yPos = - 1, inText = False, txtBuf = ''''\<rparr> operations)"

section \<open>Page decoder\<close>

text \<open>
  The calls into the PDF library, the Windows-1252 decoder and \<open>strings.TrimSpace\<close> are
  parameters of the model: what each returns for a reader \<open>'r\<close>, a PDF reader \<open>'rd\<close> and
  a page \<open>'pg\<close>.
\<close>

record ('r, 'rd, 'pg) library =
  NewPdfReader :: "'r \<Rightarrow> error + 'rd"
  GetNumPages :: "'rd \<Rightarrow> error + int"
  GetPage :: "'rd \<Rightarrow> int \<Rightarrow> error + 'pg"
  GetContentStreams :: "'pg \<Rightarrow> error + string list"
  Parse :: "string \<Rightarrow> error + operation list"
  DecodeString :: "string \<Rightarrow> error + string"
  TrimSpace :: "string \<Rightarrow> string"

text \<open>The loop over the page numbers \<open>i = 1, ..., numPages\<close>, filling \<open>pages[i-1]\<close>.\<close>

fun pagesLoop ::
  "('r, 'rd, 'pg) library \<Rightarrow> 'rd \<Rightarrow> int list \<Rightarrow> (string list \<times> error option) outcome" where
  "pagesLoop lib pdfReader [] = Returns ([], None)"
| "pagesLoop lib pdfReader (i # rest) =
     (case GetPage lib pdfReader i of
        Inl err \<Rightarrow> Returns ([], Some err)
      | Inr page \<Rightarrow>
         (case GetContentStreams lib page of
            Inl err \<Rightarrow> Returns ([], Some err)
          | Inr contentStreams \<Rightarrow>
             (let pageContentStr = foldl (\<lambda>s cstream. s @ cstream @ [NL]) '''' contentStreams
              in case extractText (Parse lib pageContentStr) of
                   Panics p \<Rightarrow> Panics p
                 | Returns (t, Some err) \<Rightarrow> Returns ([], Some err)
                 | Returns (t, None) \<Rightarrow>
                    (case DecodeString lib t of
                       Inl err \<Rightarrow> Returns ([], Some err)
                     | Inr s \<Rightarrow>
                        (case pagesLoop lib pdfReader rest of
                           Returns (pages, None) \<Rightarrow> Returns (TrimSpace lib s # pages, None)
                         | other \<Rightarrow> other)))))"

definition extractPDFText ::
  "('r, 'rd, 'pg) library \<Rightarrow> 'r \<Rightarrow> (string list \<times> error option) outcome" where
  "extractPDFText lib r =
     (case NewPdfReader lib r of
        Inl err \<Rightarrow> Returns ([], Some err)
      | Inr pdfReader \<Rightarrow>
         (case GetNumPages lib pdfReader of
            Inl err \<Rightarrow> Returns ([], Some err)
          | Inr numPages \<Rightarrow>
             if numPages < 0 then Panics NegativeLen
             else pagesLoop lib pdfReader [1..numPages]))"

section \<open>Record parser\<close>

definition parseLine :: "string \<Rightarrow> string list \<times> error option" where
  "parseLine text =
     (let parts = Split text TAB
      in if length parts = 8 \<and> parts ! 1 = '''' \<and> parts ! 2 = '''' \<and> parts ! 3 = ''''
            \<and> Contains (parts ! 7) ''Page ''
         then ([], Some EOF)
         else if length parts < 8
            \<and> Contains (parts ! 0) ''If there is a discrepancy in the listing of the card balance''
         then ([], Some EOF)
         else if length parts \<noteq> 8 then ([], Some (InvalidLine text))
         else (parts, None))"

section \<open>Table assembler\<close>

definition recordHeader :: "string list" where
  "recordHeader =
     [''Date'', ''Transaction Type'', ''Location'', ''Route'', ''Product'', ''Debit'',
      ''Credit'', ''Balance'']"

text \<open>
  A call of \<open>rest.Logger.Warn\<close>: its message and the values of its \<open>line\<close> and \<open>text\<close>
  arguments. The warnings are collected in the order they are issued.
\<close>

datatype warning = Warn string int string

record csv =
  num :: int
  records :: "string list list"
  warnings :: "warning list"

definition warn :: "csv \<Rightarrow> string \<Rightarrow> int \<Rightarrow> string \<Rightarrow> csv" where
  "warn st msg line text = st\<lparr>warnings := warnings st @ [Warn msg line text]\<rparr>"

text \<open>
  The scanner loop over the first page, from the line counter \<open>line\<close> on: the result is the
  state at the end of the page (at the end of the input or at the \<open>break\<close>) and the error
  with which \<open>getCSV\<close> returns, if any.
\<close>

fun firstPage :: "csv \<Rightarrow> int \<Rightarrow> string list \<Rightarrow> csv \<times> error option" where
  "firstPage st line [] = (st, None)"
| "firstPage st line (text # rest) =
     (if line = 0 then
        firstPage (if text \<noteq> ''TRANSACTION HISTORY FOR''
                   then warn st ''Unexpected line text'' line text else st) (line + 1) rest
      else if line = 1 then
        (if \<not> HasPrefix text ''CARD ''
         then firstPage (warn st ''Unexpected line text'' line text) (line + 1) rest
         else
           let parts = Split text (CHR '' '')
           in if length parts \<noteq> 2
              then firstPage (warn st ''Unexpected line text'' line text) (line + 1) rest
              else
                let (n, err) = ParseInt (parts ! 1);
                    st1 = st\<lparr>num := n\<rparr>
                in firstPage (if err \<noteq> None
                              then warn st1 ''error reading account number'' line text
                              else st1) (line + 1) rest)
      else if line = 2 then
        firstPage (if \<not> HasPrefix text (''TRANSACTION TYPE'' @ [TAB] @ ''LOCATION'' @ [TAB] @ ''ROUTE'')
                   then warn st ''Unexpected line text'' line text else st) (line + 1) rest
      else
        let (parts, err) = parseLine text
        in if err = Some EOF then (st, None)
           else if err \<noteq> None then (st, err)
           else firstPage (st\<lparr>records := records st @ [parts]\<rparr>) (line + 1) rest)"

text \<open>The scanner loop over a later page.\<close>

fun laterPage :: "csv \<Rightarrow> int \<Rightarrow> string list \<Rightarrow> csv \<times> error option" where
  "laterPage st line [] = (st, None)"
| "laterPage st line (text # rest) =
     (if line = 0 then
        laterPage (if \<not> HasPrefix text (''TRANSACTION TYPE'' @ [TAB] @ ''LOCATION'' @ [TAB] @ ''ROUTE'')
                   then warn st ''Unexpected line text'' line text else st) (line + 1) rest
      else
        let (parts, err) = parseLine text
        in if err = Some EOF then (st, None)
           else if err \<noteq> None then (st, err)
           else laterPage (st\<lparr>records := records st @ [parts]\<rparr>) (line + 1) rest)"

text \<open>The loop \<open>for i := range pages\<close>, from page index \<open>i\<close> on.\<close>

fun pagesFrom :: "csv \<Rightarrow> nat \<Rightarrow> string list \<Rightarrow> csv \<times> error option" where
  "pagesFrom st i [] = (st, None)"
| "pagesFrom st i (page # rest) =
     (case (if i = 0 then firstPage st 0 (scanLines page)
            else laterPage st 0 (scanLines page)) of
        (st', Some err) \<Rightarrow> (st', Some err)
      | (st', None) \<Rightarrow> pagesFrom st' (i + 1) rest)"

text \<open>
  \<open>getCSV\<close> returns the account number, the records and the error; the model adds the
  warnings it logged.
\<close>

definition getCSV :: "string list \<Rightarrow> (int \<times> string list list \<times> error option) \<times> warning list" where
  "getCSV pages =
     (case pagesFrom \<lparr>num = - 1, records = [recordHeader], warnings = []\<rparr> 0 pages of
        (st, Some err) \<Rightarrow> ((num st, [], Some err), warnings st)
      | (st, None) \<Rightarrow> ((num st, records st, None), warnings st))"

section \<open>Entry point\<close>

record TransactionData =
  AccountNumber :: int
  Transactions :: "string list list"

text \<open>The zero value \<open>TransactionData{}\<close>.\<close>

definition zeroTransactionData :: TransactionData where
  "zeroTransactionData = \<lparr>AccountNumber = 0, Transactions = []\<rparr>"

definition ParsePDF ::
  "('r, 'rd, 'pg) library \<Rightarrow> 'r \<Rightarrow> (TransactionData \<times> error option) outcome" where
  "ParsePDF lib r =
     (case extractPDFText lib r of
        Panics p \<Rightarrow> Panics p
      | Returns (pages, Some err) \<Rightarrow> Returns (zeroTransactionData, Some err)
      | Returns (pages, None) \<Rightarrow>
         (case fst (getCSV pages) of
            (accountNumber, recs, Some err) \<Rightarrow> Returns (zeroTransactionData, Some err)
          | (accountNumber, recs, None) \<Rightarrow>
              Returns (\<lparr>AccountNumber = accountNumber, Transactions = recs\<rparr>, None)))"

section \<open>Reference definitions\<close>

text \<open>
  The two end-of-table patterns in the words of the specification of the record parser,
  over the list of tab-split fields (indices count from 0): exactly 8 fields, fields 1 to 3
  empty and field 7 containing \<open>Page \<close>; fewer than 8 fields and field 0 containing the
  disclaimer text.
\<close>

definition isPageFooter :: "string list \<Rightarrow> bool" where
  "isPageFooter parts =
     (length parts = 8 \<and> parts ! 1 = '''' \<and> parts ! 2 = '''' \<and> parts ! 3 = ''''
      \<and> Contains (parts ! 7) ''Page '')"

definition isDisclaimer :: "string list \<Rightarrow> bool" where
  "isDisclaimer parts =
     (length parts < 8
      \<and> Contains (parts ! 0) ''If there is a discrepancy in the listing of the card balance'')"

text \<open>
  The table in the words of the specification of the table assembler: on the first page the
  lines from line 3 on, on a later page the lines from line 1 on, are data lines; the rows
  of a page are the fields of its data lines up to the first line that is no record; the
  rows of the table are the rows of the pages in page order.
\<close>

definition dataLines :: "nat \<Rightarrow> string \<Rightarrow> string list" where
  "dataLines i page = drop (if i = 0 then 3 else 1) (scanLines page)"

definition pageRows :: "nat \<Rightarrow> string \<Rightarrow> string list list" where
  "pageRows i page =
     map (\<lambda>text. Split text TAB) (takeWhile (\<lambda>text. snd (parseLine text) = None) (dataLines i page))"

fun tableRows :: "nat \<Rightarrow> string list \<Rightarrow> string list list" where
  "tableRows i [] = []"
| "tableRows i (page # rest) = pageRows i page @ tableRows (i + 1) rest"

text \<open>
  A line that the record parser accepts as a record, and the error, if any, at the first
  line of a list that it does not accept.
\<close>

abbreviation rowOK :: "string \<Rightarrow> bool" where
  "rowOK text \<equiv> snd (parseLine text) = None"

definition rowsError :: "string list \<Rightarrow> error option" where
  "rowsError ls =
     (case dropWhile rowOK ls of
        [] \<Rightarrow> None
      | text # _ \<Rightarrow> if snd (parseLine text) = Some EOF then None else snd (parseLine text))"

text \<open>The text that the array of a \<open>TJ\<close> contributes.\<close>

definition arrayText :: "pdfobj list \<Rightarrow> string" where
  "arrayText paramList = foldl showElem '''' paramList"

text \<open>
  The page decoder in the words of its specification: the text of page \<open>i\<close> when every
  step on that page succeeds (page lookup, content streams, text reconstruction of the
  streams joined with newlines, decoding), trimmed; the texts of the pages \<open>1..n\<close>; and
  the condition under which the loop reaches page \<open>k\<close>: the reader opens, \<open>k\<close> is one of
  its pages, and every page before \<open>k\<close> succeeds.
\<close>

definition pageText :: "('r, 'rd, 'pg) library \<Rightarrow> 'rd \<Rightarrow> int \<Rightarrow> string option" where
  "pageText lib pdfReader i =
     (case GetPage lib pdfReader i of
        Inl err \<Rightarrow> None
      | Inr page \<Rightarrow>
         (case GetContentStreams lib page of
            Inl err \<Rightarrow> None
          | Inr contentStreams \<Rightarrow>
             (case extractText
                     (Parse lib (foldl (\<lambda>s cstream. s @ cstream @ [NL]) '''' contentStreams)) of
                Returns (t, None) \<Rightarrow>
                  (case DecodeString lib t of
                     Inl err \<Rightarrow> None
                   | Inr s \<Rightarrow> Some (TrimSpace lib s))
              | _ \<Rightarrow> None)))"

definition pageTexts :: "('r, 'rd, 'pg) library \<Rightarrow> 'rd \<Rightarrow> int \<Rightarrow> string list" where
  "pageTexts lib pdfReader n = map (\<lambda>i. the (pageText lib pdfReader i)) [1..n]"

definition reachesPage :: "('r, 'rd, 'pg) library \<Rightarrow> 'r \<Rightarrow> 'rd \<Rightarrow> int \<Rightarrow> bool" where
  "reachesPage lib r pdfReader k =
     (NewPdfReader lib r = Inr pdfReader
      \<and> (case GetNumPages lib pdfReader of
            Inl err \<Rightarrow> False
          | Inr numPages \<Rightarrow> 1 \<le> k \<and> k \<le> numPages)
      \<and> list_all (\<lambda>i. pageText lib pdfReader i \<noteq> None) [1..k - 1])"

section \<open>Sample inputs\<close>

text \<open>A cursor inside a text block, and a \<open>TJ\<close> operation with the given array.\<close>

definition inBlock :: cursor where
  "inBlock = \<lparr>xPos = 28, yPos = 700, inText = True, txtBuf = ''''\<rparr>"

definition showTJ :: "pdfobj list \<Rightarrow> operation" where
  "showTJ paramList = \<lparr>Operand = ''TJ'', Params = [PdfObjectArray paramList]\<rparr>"

text \<open>
  The three metadata lines of a first page with the given second line; a line with the
  fields of the specification's page-footer scenario; a line with fields 1 to 3 empty and
  field 7 a page number; a line with a well-formed record and the fields of that record.
\<close>

definition pageHead :: "string \<Rightarrow> string" where
  "pageHead cardLine =
     ''TRANSACTION HISTORY FOR'' @ [NL] @ cardLine @ [NL]
     @ ''TRANSACTION TYPE'' @ [TAB] @ ''LOCATION'' @ [TAB] @ ''ROUTE''"

definition scenarioB :: string where
  "scenarioB = [TAB, TAB, TAB] @ ''X'' @ [TAB] @ ''Y'' @ [TAB] @ ''Z'' @ [TAB] @ ''W'' @ [TAB]
     @ ''Page 2 of 3''"

definition footerLine :: string where
  "footerLine = ''X'' @ [TAB, TAB, TAB, TAB] @ ''Y'' @ [TAB] @ ''Z'' @ [TAB] @ ''W'' @ [TAB]
     @ ''Page 2 of 3''"

definition rowLine :: string where
  "rowLine = ''01/02/2024'' @ [TAB] @ ''Boarding'' @ [TAB] @ ''Embarcadero'' @ [TAB]
     @ ''N'' @ [TAB] @ ''Cash'' @ [TAB] @ ''2.50'' @ [TAB, TAB] @ ''17.50''"

definition rowFields :: "string list" where
  "rowFields = [''01/02/2024'', ''Boarding'', ''Embarcadero'', ''N'', ''Cash'', ''2.50'', '''',
     ''17.50'']"

definition footerPages :: "string list" where
  "footerPages =
     [pageHead ''CARD 1234567890'' @ [NL] @ rowLine @ [NL] @ footerLine @ [NL] @ rowLine]"

definition samplePages :: "string list" where
  "samplePages =
     [pageHead ''CARD 12'' @ [NL] @ rowLine @ [NL]
        @ ''c'' @ [TAB, TAB, TAB, TAB, TAB, TAB, TAB] @ ''d'',
      ''TRANSACTION TYPE'' @ [NL] @ ''e'' @ [TAB, TAB, TAB, TAB, TAB, TAB, TAB] @ ''f'' @ [NL]
        @ footerLine @ [NL] @ rowLine]"

text \<open>
  Operations that draw a string at the left margin on the baseline \<open>y\<close>; the operations
  of a first page with the metadata lines and one record; and a library for a document of
  two pages, the first with these operations and the second with the given ones, with one
  content stream per page, an identity decoder and page texts that need no trimming.
\<close>

definition textAt :: "rat \<Rightarrow> string \<Rightarrow> operation list" where
  "textAt y s =
     [\<lparr>Operand = ''Tm'',
       Params = [PdfObjectInteger 1, PdfObjectInteger 0, PdfObjectInteger 0, PdfObjectInteger 1,
                 PdfObjectFloat 28, PdfObjectFloat y]\<rparr>,
      \<lparr>Operand = ''Tj'', Params = [PdfObjectString s]\<rparr>]"

definition firstPageOps :: "operation list" where
  "firstPageOps =
     [\<lparr>Operand = ''BT'', Params = []\<rparr>]
     @ textAt 700 ''TRANSACTION HISTORY FOR''
     @ textAt 680 ''CARD 123''
     @ textAt 660 (''TRANSACTION TYPE'' @ [TAB] @ ''LOCATION'' @ [TAB] @ ''ROUTE'')
     @ textAt 640 rowLine
     @ [\<lparr>Operand = ''ET'', Params = []\<rparr>]"

definition firstPageText :: string where
  "firstPageText = pageHead ''CARD 123'' @ [NL] @ rowLine"

definition docLib :: "operation list \<Rightarrow> (unit, unit, int) library" where
  "docLib secondPageOps =
     \<lparr>NewPdfReader = (\<lambda>r. Inr ()),
      GetNumPages = (\<lambda>pdfReader. Inr 2),
      GetPage = (\<lambda>pdfReader i. Inr i),
      GetContentStreams = (\<lambda>page. Inr [if page = 1 then ''1'' else ''2'']),
      Parse = (\<lambda>s. Inr (if s = ''1'' @ [NL] then firstPageOps else secondPageOps)),
      DecodeString = (\<lambda>s. Inr s),
      TrimSpace = (\<lambda>s. s)\<rparr>"

text \<open>
  Second pages: one with a later-page header and a line without tabs; one whose \<open>TJ\<close> has a
  string where the array belongs; one that moves the text matrix from x = 28 to x = 1200 on
  the same baseline. And libraries that fail at one call each: the reader, the page count,
  the lookup of page 2, the content streams of page 2, the parser on page 2, the decoder
  on the text of page 2.
\<close>

definition badLineOps :: "operation list" where
  "badLineOps =
     [\<lparr>Operand = ''BT'', Params = []\<rparr>]
     @ textAt 700 (''TRANSACTION TYPE'' @ [TAB] @ ''LOCATION'' @ [TAB] @ ''ROUTE'')
     @ textAt 680 ''bad line''
     @ [\<lparr>Operand = ''ET'', Params = []\<rparr>]"

definition badLineText :: string where
  "badLineText = ''TRANSACTION TYPE'' @ [TAB] @ ''LOCATION'' @ [TAB] @ ''ROUTE'' @ [NL] @ ''bad line''"

definition stringTJOps :: "operation list" where
  "stringTJOps =
     [\<lparr>Operand = ''BT'', Params = []\<rparr>,
      \<lparr>Operand = ''TJ'', Params = [PdfObjectString ''a'']\<rparr>,
      \<lparr>Operand = ''ET'', Params = []\<rparr>]"

definition farRightOps :: "operation list" where
  "farRightOps =
     [\<lparr>Operand = ''BT'', Params = []\<rparr>]
     @ textAt 700 ''a''
     @ [\<lparr>Operand = ''Tm'',
         Params = [PdfObjectInteger 1, PdfObjectInteger 0, PdfObjectInteger 0, PdfObjectInteger 1,
                   PdfObjectFloat 1200, PdfObjectFloat 700]\<rparr>]"

definition readerFails :: "(unit, unit, int) library" where
  "readerFails = (docLib badLineOps)\<lparr>NewPdfReader := (\<lambda>r. Inl (LibraryError ''reader''))\<rparr>"

definition countFails :: "(unit, unit, int) library" where
  "countFails = (docLib badLineOps)\<lparr>GetNumPages := (\<lambda>pdfReader. Inl (LibraryError ''count''))\<rparr>"

definition lookupFails :: "(unit, unit, int) library" where
  "lookupFails = (docLib badLineOps)
     \<lparr>GetPage := (\<lambda>pdfReader i. if i = 2 then Inl (LibraryError ''page'') else Inr i)\<rparr>"

definition streamsFail :: "(unit, unit, int) library" where
  "streamsFail = (docLib badLineOps)
     \<lparr>GetContentStreams :=
        (\<lambda>page. if page = 2 then Inl (LibraryError ''streams'') else Inr [''1''])\<rparr>"

definition parserFails :: "(unit, unit, int) library" where
  "parserFails = (docLib badLineOps)
     \<lparr>Parse := (\<lambda>s. if s = ''1'' @ [NL] then Inr firstPageOps else Inl (LibraryError ''parse''))\<rparr>"

definition decoderFails :: "(unit, unit, int) library" where
  "decoderFails = (docLib badLineOps)
     \<lparr>DecodeString := (\<lambda>s. if s = badLineText then Inl (LibraryError ''decode'') else Inr s)\<rparr>"

section \<open>Properties of the position classifier\<close>

lemma length_positions: "length positions = 8"
  by (simp add: positions_def)

lemma findPositionLoop_lower: "i \<le> 7 \<Longrightarrow> int i \<le> findPositionLoop pos i"
proof (induction pos i rule: findPositionLoop.induct)
  case (1 pos i)
  show ?case
  proof (cases "i < 7")
    case True
    then show ?thesis
      using "1.IH" by (subst findPositionLoop.simps) (auto simp: length_positions Let_def)
  next
    case False
    with "1.prems" show ?thesis
      by (subst findPositionLoop.simps) (simp add: length_positions)
  qed
qed

lemma findPositionLoop_upper: "findPositionLoop pos i \<le> max 7 (int i)"
proof (induction pos i rule: findPositionLoop.induct)
  case (1 pos i)
  show ?case
  proof (cases "i < 7")
    case True
    then show ?thesis
      using "1.IH" by (subst findPositionLoop.simps) (auto simp: length_positions Let_def)
  next
    case False
    then show ?thesis
      by (subst findPositionLoop.simps) (simp add: length_positions)
  qed
qed

lemma findPositionLoop_mono:
  "p \<le> q \<Longrightarrow> i \<le> 7 \<Longrightarrow> findPositionLoop p i \<le> findPositionLoop q i"
proof (induction q i rule: findPositionLoop.induct)
  case (1 q i)
  show ?case
  proof (cases "i < 7")
    case False
    then show ?thesis
      by (subst findPositionLoop.simps, subst (2) findPositionLoop.simps)
         (simp add: length_positions)
  next
    case True
    define h where "h = positions ! i + (positions ! (i + 1) - positions ! i) / 2"
    have unfold: "findPositionLoop x i = (if x < h then int i else findPositionLoop x (i + 1))" for x
      using True by (subst findPositionLoop.simps) (simp add: length_positions Let_def h_def)
    show ?thesis
    proof (cases "q < h")
      case qh: True
      with \<open>p \<le> q\<close> have "p < h" by simp
      with qh show ?thesis by (simp add: unfold)
    next
      case qh: False
      have step: "findPositionLoop p (i + 1) \<le> findPositionLoop q (i + 1)"
        using "1.IH" [OF _ refl] True qh "1.prems" by (simp add: length_positions h_def)
      show ?thesis
      proof (cases "p < h")
        case True
        have "int i \<le> findPositionLoop q (i + 1)"
          using findPositionLoop_lower [of "i + 1" q] \<open>i < 7\<close> by simp
        with True qh show ?thesis by (simp add: unfold)
      next
        case False
        with qh step show ?thesis by (simp add: unfold)
      qed
    qed
  qed
qed

lemma findPositionIdx_range:
  assumes "0 \<le> pos" "pos \<le> 1100"
  shows "\<exists>i. findPositionIdx pos = Returns i \<and> 0 \<le> i \<and> i \<le> 7"
proof -
  have "0 \<le> findPositionLoop pos 0" "findPositionLoop pos 0 \<le> 7"
    using findPositionLoop_lower [of 0 pos] findPositionLoop_upper [of pos 0] by simp_all
  with assms show ?thesis
    by (simp add: findPositionIdx_def length_positions)
qed

lemma findPositionIdx_mono:
  assumes "0 \<le> p" "p \<le> q" "q \<le> 1100"
    and "findPositionIdx p = Returns i" "findPositionIdx q = Returns j"
  shows "i \<le> j"
proof -
  have loop: "findPositionLoop p 0 \<le> findPositionLoop q 0"
    using findPositionLoop_mono [of p q 0] assms by simp
  have lo: "0 \<le> findPositionLoop q 0" and hi: "findPositionLoop p 0 \<le> 7"
    using findPositionLoop_lower [of 0 q] findPositionLoop_upper [of p 0] by simp_all
  from assms loop lo hi show ?thesis
    by (auto simp: findPositionIdx_def length_positions split: if_splits)
qed

lemma findPositionLoop_eval:
  "findPositionLoop pos 0 =
     (if pos < 80.855 then 0 else if pos < 246.475 then 1 else if pos < 419.145 then 2
      else if pos < 503.715 then 3 else if pos < 592.13 then 4 else if pos < 670.83 then 5
      else if pos < 704 then 6 else 7)"
  by (simp add: findPositionLoop.simps positions_def Let_def)

text \<open>
  Claim C1. For coordinates \<open>0 \<le> p < q \<le> 1100\<close>, \<open>howManyTabs p q\<close> returns the
  difference of the column indices \<open>findPositionIdx q - findPositionIdx p\<close>, and that
  difference is never negative: \<open>findPositionIdx\<close> is monotone on the interval.
\<close>

theorem howManyTabs_is_index_difference:
  assumes "0 \<le> p" and "p < q" and "q \<le> 1100"
  shows "\<exists>i j. findPositionIdx p = Returns i \<and> findPositionIdx q = Returns j
           \<and> howManyTabs p q = Returns (j - i) \<and> 0 \<le> j - i"
proof -
  from assms have "0 \<le> q" and "p \<le> 1100" and "p \<le> q" by simp_all
  obtain i where i: "findPositionIdx p = Returns i"
    using findPositionIdx_range [OF \<open>0 \<le> p\<close> \<open>p \<le> 1100\<close>] by blast
  obtain j where j: "findPositionIdx q = Returns j"
    using findPositionIdx_range [OF \<open>0 \<le> q\<close> \<open>q \<le> 1100\<close>] by blast
  have "i \<le> j"
    using findPositionIdx_mono [OF \<open>0 \<le> p\<close> \<open>p \<le> q\<close> \<open>q \<le> 1100\<close> i j] .
  moreover have "howManyTabs p q = Returns (j - i)"
    using \<open>p < q\<close> i j by (simp add: howManyTabs_def)
  ultimately show ?thesis using i j by simp
qed

theorem howManyTabs_is_index_difference_witness:
  "(0::rat) \<le> 28 \<and> (28::rat) < 479.05 \<and> (479.05::rat) \<le> 1100
   \<and> findPositionIdx 28 = Returns 0 \<and> findPositionIdx 479.05 = Returns 3
   \<and> howManyTabs 28 479.05 = Returns 3"
  using howManyTabs_is_index_difference [of 28 "479.05"]
  by (simp add: findPositionIdx_def findPositionLoop_eval positions_def)

text \<open>
  Claim C8. Every coordinate from 0 up to the first table entry \<open>positions[0] = 28\<close> is
  classified as column 0, and every coordinate from the last table entry
  \<open>positions[7] = 722.22\<close> up to 1100 as column 7.
\<close>

theorem findPositionIdx_ends:
  "(0 \<le> c \<and> c \<le> positions ! 0 \<longrightarrow> findPositionIdx c = Returns 0)
   \<and> (positions ! 7 \<le> c \<and> c \<le> 1100 \<longrightarrow> findPositionIdx c = Returns 7)
   \<and> positions ! 0 = 28 \<and> positions ! 7 = 722.22"
  by (simp add: findPositionIdx_def positions_def)

theorem findPositionIdx_ends_witness:
  "(0::rat) \<le> 28 \<and> 28 \<le> positions ! 0 \<and> findPositionIdx 28 = Returns 0
   \<and> positions ! 7 \<le> 722.22 \<and> (722.22::rat) \<le> 1100 \<and> findPositionIdx 722.22 = Returns 7"
  using findPositionIdx_ends [of 28] findPositionIdx_ends [of "722.22"]
  by (simp add: positions_def)

text \<open>
  Claim C9. \<open>findPositionIdx\<close> panics, with the offending coordinate, exactly when the
  coordinate is below 0 or above 1100; it returns (an index, so no clamped value for a
  coordinate outside the interval) exactly for the coordinates of the interval, and the
  index it returns there lies in \<open>0..7\<close>.
\<close>

theorem findPositionIdx_panics_iff:
  "(findPositionIdx pos = Panics (InvalidPos pos) \<longleftrightarrow> pos < 0 \<or> 1100 < pos)
   \<and> ((\<exists>i. findPositionIdx pos = Returns i) \<longleftrightarrow> 0 \<le> pos \<and> pos \<le> 1100)
   \<and> (0 \<le> pos \<and> pos \<le> 1100 \<longrightarrow>
        (\<exists>i. findPositionIdx pos = Returns i \<and> 0 \<le> i \<and> i \<le> 7))"
proof -
  have a: "findPositionIdx pos = Panics (InvalidPos pos) \<longleftrightarrow> pos < 0 \<or> 1100 < pos"
    by (simp add: findPositionIdx_def)
  have b: "0 \<le> pos \<and> pos \<le> 1100 \<longrightarrow> (\<exists>i. findPositionIdx pos = Returns i \<and> 0 \<le> i \<and> i \<le> 7)"
    using findPositionIdx_range [of pos] by blast
  have c: "(\<exists>i. findPositionIdx pos = Returns i) \<longleftrightarrow> 0 \<le> pos \<and> pos \<le> 1100"
    using a b by (cases "0 \<le> pos \<and> pos \<le> 1100") auto
  from a b c show ?thesis by blast
qed

theorem findPositionIdx_panics_iff_witness:
  "findPositionIdx (- 1) = Panics (InvalidPos (- 1)) \<and> findPositionIdx 1100.5 = Panics (InvalidPos 1100.5)
   \<and> (0::rat) \<le> 300 \<and> (300::rat) \<le> 1100 \<and> findPositionIdx 300 = Returns 2"
  using findPositionIdx_panics_iff [of "- 1"] findPositionIdx_panics_iff [of "1100.5"]
    findPositionIdx_panics_iff [of 300]
  by (simp add: findPositionIdx_def findPositionLoop_eval positions_def)

section \<open>Properties of the record parser\<close>

lemma Split_nonempty: "Split s sep \<noteq> []"
  by (induction s) (auto simp: Let_def)

lemma length_Split: "length (Split s sep) = Suc (count_list s sep)"
proof (induction s)
  case Nil
  then show ?case by simp
next
  case (Cons c cs)
  have "length (tl (Split cs sep)) = count_list cs sep"
    using Cons by simp
  with Cons show ?case by (simp add: Let_def)
qed

lemma Contains_iff: "Contains s sub \<longleftrightarrow> (\<exists>ps ss. s = ps @ sub @ ss)"
proof (induction s)
  case Nil
  then show ?case by auto
next
  case (Cons c cs)
  show ?case
  proof
    assume "Contains (c # cs) sub"
    then consider "prefix sub (c # cs)" | "Contains cs sub" by auto
    then show "\<exists>ps ss. c # cs = ps @ sub @ ss"
    proof cases
      case 1
      then obtain ss where "c # cs = sub @ ss" by (auto simp: prefix_def)
      then have "c # cs = [] @ sub @ ss" by simp
      then show ?thesis by blast
    next
      case 2
      then obtain ps ss where "cs = ps @ sub @ ss" using Cons by blast
      then have "c # cs = (c # ps) @ sub @ ss" by simp
      then show ?thesis by blast
    qed
  next
    assume "\<exists>ps ss. c # cs = ps @ sub @ ss"
    then obtain ps ss where eq: "c # cs = ps @ sub @ ss" by blast
    show "Contains (c # cs) sub"
    proof (cases ps)
      case Nil
      with eq have "prefix sub (c # cs)" by (simp add: prefix_def)
      then show ?thesis by simp
    next
      case (Cons p ps')
      with eq have "cs = ps' @ sub @ ss" by simp
      then have "Contains cs sub" using Cons.IH by blast
      then show ?thesis by simp
    qed
  qed
qed

lemma parseLine_cases:
  "parseLine text =
     (if isPageFooter (Split text TAB) \<or> isDisclaimer (Split text TAB) then ([], Some EOF)
      else if length (Split text TAB) \<noteq> 8 then ([], Some (InvalidLine text))
      else (Split text TAB, None))"
  by (auto simp: parseLine_def isPageFooter_def isDisclaimer_def Let_def)

text \<open>
  Claim C2. \<open>parseLine\<close> returns the error \<open>InvalidLine\<close>, carrying the raw line, exactly
  when the number of tab-split fields is not 8 and the fields match neither end-of-table
  pattern; every other error it returns is the sentinel \<open>EOF\<close>, returned exactly for the
  two patterns; and a line that is neither is returned as its own fields, unchanged: no
  line is dropped or padded on the way.
\<close>

theorem parseLine_invalid_iff:
  "(parseLine text = ([], Some (InvalidLine text)) \<longleftrightarrow>
      length (Split text TAB) \<noteq> 8
      \<and> \<not> isPageFooter (Split text TAB) \<and> \<not> isDisclaimer (Split text TAB))
   \<and> ((\<exists>e. snd (parseLine text) = Some e \<and> e \<noteq> EOF) \<longleftrightarrow>
        parseLine text = ([], Some (InvalidLine text)))
   \<and> (parseLine text = ([], Some EOF) \<longleftrightarrow>
        isPageFooter (Split text TAB) \<or> isDisclaimer (Split text TAB))
   \<and> (parseLine text = (Split text TAB, None) \<longleftrightarrow>
        length (Split text TAB) = 8 \<and> \<not> isPageFooter (Split text TAB))
   \<and> (parseLine text = ([], Some (InvalidLine text)) \<or> parseLine text = ([], Some EOF)
        \<or> parseLine text = (Split text TAB, None))
   \<and> length (Split text TAB) = Suc (count_list text TAB)"
proof -
  have ne: "Split text TAB \<noteq> []" by (rule Split_nonempty)
  have d8: "isDisclaimer (Split text TAB) \<Longrightarrow> length (Split text TAB) \<noteq> 8"
    by (simp add: isDisclaimer_def)
  have f8: "isPageFooter (Split text TAB) \<Longrightarrow> length (Split text TAB) = 8"
    by (simp add: isPageFooter_def)
  show ?thesis
    using ne d8 f8 by (auto simp: parseLine_cases length_Split)
qed

theorem parseLine_invalid_iff_witness:
  "length (Split (''a'' @ [TAB] @ ''b'') TAB) = 2
   \<and> \<not> isPageFooter (Split (''a'' @ [TAB] @ ''b'') TAB)
   \<and> \<not> isDisclaimer (Split (''a'' @ [TAB] @ ''b'') TAB)
   \<and> parseLine (''a'' @ [TAB] @ ''b'') = ([], Some (InvalidLine (''a'' @ [TAB] @ ''b'')))
   \<and> length (Split rowLine TAB) = 8
   \<and> \<not> isPageFooter (Split rowLine TAB)
   \<and> parseLine rowLine = (rowFields, None)"
proof -
  have a: "length (Split (''a'' @ [TAB] @ ''b'') TAB) = 2
      \<and> \<not> isPageFooter (Split (''a'' @ [TAB] @ ''b'') TAB)
      \<and> \<not> isDisclaimer (Split (''a'' @ [TAB] @ ''b'') TAB)"
    by (simp add: isPageFooter_def isDisclaimer_def)
  have b: "Split rowLine TAB = rowFields"
    by code_simp
  have c: "length rowFields = 8 \<and> \<not> isPageFooter rowFields"
    by (simp add: rowFields_def isPageFooter_def)
  show ?thesis
    using a b c parseLine_invalid_iff [of "''a'' @ [TAB] @ ''b''"]
      parseLine_invalid_iff [of rowLine]
    by simp
qed

section \<open>Properties of the text reconstructor\<close>

lemma foldl_showElem: "foldl showElem t xs = t @ foldl showElem '''' xs"
proof (induction xs rule: rev_induct)
  case Nil
  then show ?case by simp
next
  case (snoc x xs)
  have "showElem (t @ u) x = t @ showElem u x" for u
    by (cases x) simp_all
  with snoc show ?case by simp
qed

lemma foldl_showElem_arrayText: "foldl showElem t xs = t @ arrayText xs"
  unfolding arrayText_def by (rule foldl_showElem)

lemma arrayText_append: "arrayText (xs @ ys) = arrayText xs @ arrayText ys"
  by (simp add: arrayText_def foldl_showElem [of "foldl showElem '''' xs" ys])

lemma step_TJ:
  assumes "inText st"
  shows "step st \<lparr>Operand = ''TJ'', Params = obj # ps\<rparr> =
           (case obj of
              PdfObjectArray paramList \<Rightarrow> Proceed (st\<lparr>txtBuf := txtBuf st @ arrayText paramList\<rparr>)
            | _ \<Rightarrow> Stop (NoArray (typeName obj)))"
  using assms
  by (cases obj) (simp_all add: step_def textMatrix_def showText_def foldl_showElem_arrayText)

lemma extractText_TJ_examples:
  "extractText (Inr [\<lparr>Operand = ''BT'', Params = []\<rparr>,
        showTJ [PdfObjectString ''a'', PdfObjectInteger (- 150), PdfObjectString ''b'']])
     = Returns (''a b'', None)
   \<and> extractText (Inr [\<lparr>Operand = ''BT'', Params = []\<rparr>,
        showTJ [PdfObjectString ''a'', PdfObjectInteger (- 50), PdfObjectString ''b'']])
     = Returns (''ab'', None)
   \<and> extractText (Inr [\<lparr>Operand = ''BT'', Params = []\<rparr>,
        \<lparr>Operand = ''TJ'', Params = [PdfObjectString ''a'']\<rparr>,
        showTJ [PdfObjectString ''b'']])
     = Returns ('''', Some (NoArray ''*core.PdfObjectString''))"
  by code_simp

text \<open>
  Claim C6. Inside a text block, a numeric element of a \<open>TJ\<close> array (a float or an
  integer) that is below \<open>-100\<close> adds exactly one space between the text of the elements
  before it and the text of the elements after it, and a numeric element at or above
  \<open>-100\<close> adds nothing.
\<close>

theorem TJ_adjustment_space:
  assumes "inText st"
  shows "step st \<lparr>Operand = ''TJ'', Params = PdfObjectArray (xs @ PdfObjectFloat v # ys) # ps\<rparr> =
           Proceed (st\<lparr>txtBuf := txtBuf st @ arrayText xs
                                   @ (if v < - 100 then '' '' else '''') @ arrayText ys\<rparr>)
       \<and> step st \<lparr>Operand = ''TJ'', Params = PdfObjectArray (xs @ PdfObjectInteger k # ys) # ps\<rparr> =
           Proceed (st\<lparr>txtBuf := txtBuf st @ arrayText xs
                                   @ (if k < - 100 then '' '' else '''') @ arrayText ys\<rparr>)"
proof -
  have f: "arrayText (xs @ PdfObjectFloat v # ys) =
             arrayText xs @ (if v < - 100 then '' '' else '''') @ arrayText ys"
    using arrayText_append [of xs "[PdfObjectFloat v] @ ys"] arrayText_append [of "[PdfObjectFloat v]" ys]
    by (simp add: arrayText_def)
  have i: "arrayText (xs @ PdfObjectInteger k # ys) =
             arrayText xs @ (if k < - 100 then '' '' else '''') @ arrayText ys"
    using arrayText_append [of xs "[PdfObjectInteger k] @ ys"] arrayText_append [of "[PdfObjectInteger k]" ys]
    by (simp add: arrayText_def)
  show ?thesis
    using step_TJ [OF assms] by (simp add: f i)
qed

theorem TJ_adjustment_space_witness:
  "inText inBlock
   \<and> step inBlock (showTJ [PdfObjectString ''a'', PdfObjectInteger (- 150), PdfObjectString ''b''])
       = Proceed (inBlock\<lparr>txtBuf := ''a b''\<rparr>)
   \<and> step inBlock (showTJ [PdfObjectString ''a'', PdfObjectFloat (- 50), PdfObjectString ''b''])
       = Proceed (inBlock\<lparr>txtBuf := ''ab''\<rparr>)
   \<and> step inBlock (showTJ [PdfObjectString ''a'', PdfObjectFloat (- 100), PdfObjectString ''b''])
       = Proceed (inBlock\<lparr>txtBuf := ''ab''\<rparr>)
   \<and> step inBlock (showTJ [PdfObjectString ''a'', PdfObjectFloat (- 100.5), PdfObjectString ''b''])
       = Proceed (inBlock\<lparr>txtBuf := ''a b''\<rparr>)"
proof -
  have h: "inText inBlock" by (simp add: inBlock_def)
  show ?thesis
    using h
      TJ_adjustment_space [OF h, of "[PdfObjectString ''a'']" "- 50" "[PdfObjectString ''b'']" "[]" "- 150"]
      TJ_adjustment_space [OF h, of "[PdfObjectString ''a'']" "- 100" "[PdfObjectString ''b'']" "[]" "- 150"]
      TJ_adjustment_space [OF h, of "[PdfObjectString ''a'']" "- 100.5" "[PdfObjectString ''b'']" "[]" "- 150"]
    by (simp add: showTJ_def arrayText_def inBlock_def)
qed

text \<open>
  Claim C3 as stated fails: inside a text block, a \<open>TJ\<close> array with an element that is
  neither a string nor a number (here a name object) is read without any error.
\<close>

theorem TJ_other_element_no_error:
  "extractText (Inr [\<lparr>Operand = ''BT'', Params = []\<rparr>,
                     showTJ [PdfObjectString ''a'', PdfObjectName ''x'', PdfObjectString ''b'']])
     = Returns (''ab'', None)"
  by code_simp

text \<open>
  Claim C3, amended. Inside a text block, a \<open>TJ\<close> whose first operand is not an array
  ends \<open>extractText\<close> with an error (it names the operand's type); an array element that
  is neither a string nor a number is skipped: it adds nothing to the text and raises no
  error.
\<close>

theorem TJ_operand_shapes:
  assumes "inText st"
  shows "((\<forall>paramList. obj \<noteq> PdfObjectArray paramList) \<longrightarrow>
            step st \<lparr>Operand = ''TJ'', Params = obj # ps\<rparr> = Stop (NoArray (typeName obj))
            \<and> runOps st (\<lparr>Operand = ''TJ'', Params = obj # ps\<rparr> # ops) = Returns ('''', Some (NoArray (typeName obj))))
       \<and> ((\<forall>s. elem \<noteq> PdfObjectString s) \<and> (\<forall>v. elem \<noteq> PdfObjectFloat v)
            \<and> (\<forall>k. elem \<noteq> PdfObjectInteger k) \<longrightarrow>
            step st \<lparr>Operand = ''TJ'', Params = PdfObjectArray (xs @ elem # ys) # ps\<rparr>
              = Proceed (st\<lparr>txtBuf := txtBuf st @ arrayText xs @ arrayText ys\<rparr>)
            \<and> step st \<lparr>Operand = ''TJ'', Params = PdfObjectArray (xs @ elem # ys) # ps\<rparr>
              = step st \<lparr>Operand = ''TJ'', Params = PdfObjectArray (xs @ ys) # ps\<rparr>)"
proof -
  have a: "step st \<lparr>Operand = ''TJ'', Params = obj # ps\<rparr> = Stop (NoArray (typeName obj))"
    if "\<forall>paramList. obj \<noteq> PdfObjectArray paramList"
    using that step_TJ [OF assms, of obj ps] by (cases obj) simp_all
  have b: "arrayText (xs @ elem # ys) = arrayText xs @ arrayText ys"
    if "\<forall>s. elem \<noteq> PdfObjectString s" "\<forall>v. elem \<noteq> PdfObjectFloat v" "\<forall>k. elem \<noteq> PdfObjectInteger k"
  proof -
    have "arrayText [elem] = ''''"
      using that by (cases elem) (simp_all add: arrayText_def)
    then show ?thesis
      using arrayText_append [of xs "[elem] @ ys"] arrayText_append [of "[elem]" ys] by simp
  qed
  show ?thesis
    using a b step_TJ [OF assms] by (simp add: arrayText_append)
qed

theorem TJ_operand_shapes_witness:
  "inText inBlock
   \<and> runOps inBlock [\<lparr>Operand = ''TJ'', Params = [PdfObjectString ''a'']\<rparr>]
       = Returns ('''', Some (NoArray ''*core.PdfObjectString''))
   \<and> runOps inBlock [\<lparr>Operand = ''TJ'', Params = [PdfObjectString ''b'']\<rparr>]
       = Returns ('''', Some (NoArray ''*core.PdfObjectString''))
   \<and> step inBlock (showTJ [PdfObjectString ''a'', PdfObjectNull, PdfObjectString ''b''])
       = Proceed (inBlock\<lparr>txtBuf := ''ab''\<rparr>)"
proof -
  have h: "inText inBlock" by (simp add: inBlock_def)
  show ?thesis
    using h
      TJ_operand_shapes [OF h, of "PdfObjectString ''a''" "[]" "[]" PdfObjectNull "[PdfObjectString ''a'']" "[PdfObjectString ''b'']"]
      TJ_operand_shapes [OF h, of "PdfObjectString ''b''" "[]" "[]" PdfObjectNull "[]" "[]"]
    by (simp add: showTJ_def arrayText_def inBlock_def)
qed

section \<open>Properties of the table assembler\<close>

lemma rowOK_Split: "rowOK text \<Longrightarrow> parseLine text = (Split text TAB, None)"
  by (simp add: parseLine_cases split: if_splits)

lemma laterPage_rows:
  "1 \<le> line \<Longrightarrow>
   laterPage st line ls =
     (st\<lparr>records := records st @ map (\<lambda>text. Split text TAB) (takeWhile rowOK ls)\<rparr>,
      rowsError ls)"
proof (induction ls arbitrary: st line)
  case Nil
  then show ?case by (simp add: rowsError_def)
next
  case (Cons t ls)
  show ?case
  proof (cases "rowOK t")
    case True
    then have pl: "parseLine t = (Split t TAB, None)" by (rule rowOK_Split)
    have "1 \<le> line + 1" using Cons.prems by simp
    from Cons.IH [OF this] Cons.prems True pl show ?thesis
      by (simp add: rowsError_def)
  next
    case False
    with Cons.prems show ?thesis
      by (auto simp: rowsError_def split: prod.splits)
  qed
qed

lemma firstPage_rows:
  "3 \<le> line \<Longrightarrow>
   firstPage st line ls =
     (st\<lparr>records := records st @ map (\<lambda>text. Split text TAB) (takeWhile rowOK ls)\<rparr>,
      rowsError ls)"
proof (induction ls arbitrary: st line)
  case Nil
  then show ?case by (simp add: rowsError_def)
next
  case (Cons t ls)
  show ?case
  proof (cases "rowOK t")
    case True
    then have pl: "parseLine t = (Split t TAB, None)" by (rule rowOK_Split)
    have "3 \<le> line + 1" using Cons.prems by simp
    from Cons.IH [OF this] Cons.prems True pl show ?thesis
      by (simp add: rowsError_def)
  next
    case False
    with Cons.prems show ?thesis
      by (auto simp: rowsError_def split: prod.splits)
  qed
qed

lemma firstPage_line0:
  "\<exists>st'. firstPage st 0 (text # ls) = firstPage st' 1 ls \<and> records st' = records st
         \<and> num st' = num st"
  by (fastforce simp: warn_def)

lemma firstPage_line1:
  "\<exists>st'. firstPage st 1 (text # ls) = firstPage st' 2 ls \<and> records st' = records st"
  by (fastforce simp: warn_def Let_def split: prod.splits)

lemma firstPage_line2:
  "\<exists>st'. firstPage st 2 (text # ls) = firstPage st' 3 ls \<and> records st' = records st
         \<and> num st' = num st"
  by (fastforce simp: warn_def)

lemma laterPage_line0:
  "\<exists>st'. laterPage st 0 (text # ls) = laterPage st' 1 ls \<and> records st' = records st
         \<and> num st' = num st"
  by (fastforce simp: warn_def)

lemma firstPage_records:
  "records (fst (firstPage st 0 ls)) =
     records st @ map (\<lambda>text. Split text TAB) (takeWhile rowOK (drop 3 ls))
   \<and> snd (firstPage st 0 ls) = rowsError (drop 3 ls)"
proof (cases ls)
  case Nil
  then show ?thesis by (simp add: rowsError_def)
next
  case l0: (Cons t0 ls0)
  obtain st0 where s0: "firstPage st 0 (t0 # ls0) = firstPage st0 1 ls0" "records st0 = records st"
    using firstPage_line0 by blast
  show ?thesis
  proof (cases ls0)
    case Nil
    with l0 s0 show ?thesis by (simp add: rowsError_def)
  next
    case l1: (Cons t1 ls1)
    obtain st1 where s1: "firstPage st0 1 (t1 # ls1) = firstPage st1 2 ls1" "records st1 = records st0"
      using firstPage_line1 by blast
    show ?thesis
    proof (cases ls1)
      case Nil
      with l0 l1 s0 s1 show ?thesis by (simp add: rowsError_def)
    next
      case l2: (Cons t2 ls2)
      obtain st2 where s2: "firstPage st1 2 (t2 # ls2) = firstPage st2 3 ls2" "records st2 = records st1"
        using firstPage_line2 by blast
      have "firstPage st 0 ls = firstPage st2 3 ls2"
        using l0 l1 l2 s0 s1 s2 by simp
      moreover have "drop 3 ls = ls2" using l0 l1 l2 by simp
      ultimately show ?thesis
        using s0 s1 s2 by (simp add: firstPage_rows)
    qed
  qed
qed

lemma laterPage_records:
  "records (fst (laterPage st 0 ls)) =
     records st @ map (\<lambda>text. Split text TAB) (takeWhile rowOK (drop 1 ls))
   \<and> snd (laterPage st 0 ls) = rowsError (drop 1 ls)"
proof (cases ls)
  case Nil
  then show ?thesis by (simp add: rowsError_def)
next
  case (Cons t0 ls0)
  obtain st0 where s0: "laterPage st 0 (t0 # ls0) = laterPage st0 1 ls0" "records st0 = records st"
    using laterPage_line0 by blast
  with Cons show ?thesis by (simp add: laterPage_rows)
qed

lemma page_records:
  assumes "(if i = 0 then firstPage st 0 (scanLines page) else laterPage st 0 (scanLines page)) = (st', e)"
  shows "records st' = records st @ pageRows i page"
proof (cases "i = 0")
  case True
  with assms have "fst (firstPage st 0 (scanLines page)) = st'" by simp
  with firstPage_records [of st "scanLines page"] True show ?thesis
    by (simp add: pageRows_def dataLines_def)
next
  case False
  with assms have "fst (laterPage st 0 (scanLines page)) = st'" by simp
  with laterPage_records [of st "scanLines page"] False show ?thesis
    by (simp add: pageRows_def dataLines_def)
qed

lemma pagesFrom_records:
  "pagesFrom st i pages = (st', None) \<Longrightarrow> records st' = records st @ tableRows i pages"
proof (induction pages arbitrary: st i)
  case Nil
  then show ?case by simp
next
  case (Cons page pages)
  obtain st1 e where pg:
    "(if i = 0 then firstPage st 0 (scanLines page) else laterPage st 0 (scanLines page)) = (st1, e)"
    by (cases "if i = 0 then firstPage st 0 (scanLines page) else laterPage st 0 (scanLines page)")
  have r1: "records st1 = records st @ pageRows i page"
    using page_records [OF pg] .
  from Cons.prems pg have e: "e = None" and rest: "pagesFrom st1 (i + 1) pages = (st', None)"
    by (auto split: option.splits)
  from Cons.IH [OF rest] r1 show ?case by simp
qed

lemma getCSV_records:
  assumes "getCSV pages = ((n, recs, None), w)"
  shows "recs = recordHeader # tableRows 0 pages"
proof -
  obtain st e where pf: "pagesFrom \<lparr>num = - 1, records = [recordHeader], warnings = []\<rparr> 0 pages = (st, e)"
    by (cases "pagesFrom \<lparr>num = - 1, records = [recordHeader], warnings = []\<rparr> 0 pages")
  with assms have "e = None" and "recs = records st"
    by (auto simp: getCSV_def split: option.splits)
  with pagesFrom_records [of _ 0 pages st] pf show ?thesis by simp
qed

lemma getCSV_failed_records:
  assumes "getCSV pages = ((n, recs, Some err), w)"
  shows "recs = []"
  using assms by (auto simp: getCSV_def split: prod.splits option.splits)

lemma pageRows_row:
  assumes "r \<in> set (pageRows i page)"
  shows "length r = 8 \<and> \<not> isPageFooter r"
proof -
  from assms obtain t where "t \<in> set (takeWhile rowOK (dataLines i page))" "r = Split t TAB"
    by (auto simp: pageRows_def)
  then have "rowOK t" by (auto dest: set_takeWhileD)
  with \<open>r = Split t TAB\<close> show ?thesis
    by (simp add: parseLine_cases split: if_splits)
qed

lemma tableRows_row:
  "r \<in> set (tableRows i pages) \<Longrightarrow> length r = 8 \<and> \<not> isPageFooter r"
  by (induction pages arbitrary: i) (auto dest: pageRows_row)

lemma length_recordHeader: "length recordHeader = 8"
  by (simp add: recordHeader_def)

lemma recordHeader_not_footer: "\<not> isPageFooter recordHeader"
  by (simp add: isPageFooter_def recordHeader_def)

text \<open>
  Claim C5. When \<open>getCSV\<close> returns without error, every record of the table has exactly
  8 fields, the first record is the literal header row, and the records after it are the
  rows of the pages in the order met: the first page's rows before those of later pages,
  each page's rows in line order.
\<close>

theorem getCSV_table_shape:
  assumes "getCSV pages = ((n, recs, None), w)"
  shows "(\<forall>r \<in> set recs. length r = 8)
         \<and> hd recs = recordHeader
         \<and> tl recs = tableRows 0 pages
         \<and> recs = recordHeader # tableRows 0 pages
         \<and> recordHeader = [''Date'', ''Transaction Type'', ''Location'', ''Route'', ''Product'',
                            ''Debit'', ''Credit'', ''Balance'']"
proof -
  have recs: "recs = recordHeader # tableRows 0 pages"
    using getCSV_records [OF assms] .
  have "length r = 8" if "r \<in> set recs" for r
    using that recs tableRows_row [of r 0 pages] by (auto simp: length_recordHeader)
  with recs show ?thesis by (simp add: recordHeader_def)
qed

lemma getCSV_samplePages:
  "getCSV samplePages =
     ((12,
       [recordHeader, rowFields, [''c'', [], [], [], [], [], [], ''d''],
        [''e'', [], [], [], [], [], [], ''f'']],
       None),
      [Warn ''Unexpected line text'' 0 ''TRANSACTION TYPE''])"
  by code_simp

theorem getCSV_table_shape_witness:
  "getCSV samplePages =
     ((12,
       [recordHeader, rowFields, [''c'', [], [], [], [], [], [], ''d''],
        [''e'', [], [], [], [], [], [], ''f'']],
       None),
      [Warn ''Unexpected line text'' 0 ''TRANSACTION TYPE''])
   \<and> map length [recordHeader, rowFields, [''c'', [], [], [], [], [], [], ''d''],
                   [''e'', [], [], [], [], [], [], ''f'']] = [8, 8, 8, 8]
   \<and> tableRows 0 samplePages =
        [rowFields, [''c'', [], [], [], [], [], [], ''d''], [''e'', [], [], [], [], [], [], ''f'']]"
proof -
  note shape = getCSV_table_shape [OF getCSV_samplePages]
  note rows = shape [THEN conjunct2, THEN conjunct2, THEN conjunct1, symmetric]
  have a: "map length [recordHeader, rowFields, [''c'', [], [], [], [], [], [], ''d''],
                   [''e'', [], [], [], [], [], [], ''f'']] = [8, 8, 8, 8]"
    using shape [THEN conjunct1] by simp
  have b: "tableRows 0 samplePages =
        [rowFields, [''c'', [], [], [], [], [], [], ''d''], [''e'', [], [], [], [], [], [], ''f'']]"
    using rows by (simp only: list.sel)
  show ?thesis
    by (intro conjI getCSV_samplePages a b)
qed

text \<open>
  Claim C4 as stated fails: the line with the fields
  \<open>["", "", "", "X", "Y", "Z", "W", "Page 2 of 3"]\<close> has a field 3 that is not empty, so
  \<open>parseLine\<close> returns it as a record and \<open>getCSV\<close> puts it into the table.
\<close>

theorem scenarioB_is_record:
  "Split scenarioB TAB = ['''', '''', '''', ''X'', ''Y'', ''Z'', ''W'', ''Page 2 of 3'']
   \<and> parseLine scenarioB = (['''', '''', '''', ''X'', ''Y'', ''Z'', ''W'', ''Page 2 of 3''], None)
   \<and> fst (getCSV [pageHead ''CARD 1234567890'' @ [NL] @ scenarioB]) =
       (1234567890,
        [recordHeader, ['''', '''', '''', ''X'', ''Y'', ''Z'', ''W'', ''Page 2 of 3'']],
        None)"
  by code_simp

text \<open>
  Claim C4, amended. A line whose fields match the page-footer pattern (8 fields, fields 1
  to 3 empty, field 7 containing \<open>Page \<close>), such as
  \<open>["X", "", "", "", "Y", "Z", "W", "Page 2 of 3"]\<close>, is answered by \<open>parseLine\<close> with
  the sentinel \<open>EOF\<close>, not with a fatal error, and its fields are in no table that
  \<open>getCSV\<close> returns.
\<close>

theorem page_footer_is_sentinel:
  assumes "isPageFooter (Split line TAB)"
  shows "parseLine line = ([], Some EOF)
         \<and> Split line TAB \<notin> set (fst (snd (fst (getCSV pages))))"
proof -
  have "parseLine line = ([], Some EOF)"
    using assms by (simp add: parseLine_cases)
  moreover have "Split line TAB \<notin> set (fst (snd (fst (getCSV pages))))"
  proof (cases "getCSV pages")
    case (Pair res w)
    obtain n recs e where res: "res = (n, recs, e)" by (cases res)
    show ?thesis
    proof (cases e)
      case None
      then have "recs = recordHeader # tableRows 0 pages"
        using getCSV_records Pair res by simp
      moreover have "Split line TAB \<noteq> recordHeader"
        using assms recordHeader_not_footer by auto
      moreover have "Split line TAB \<notin> set (tableRows 0 pages)"
        using assms tableRows_row by blast
      ultimately show ?thesis using Pair res by simp
    next
      case (Some err)
      then have "recs = []"
        using getCSV_failed_records Pair res by simp
      then show ?thesis using Pair res by simp
    qed
  qed
  ultimately show ?thesis by simp
qed

lemma footerLine_fields:
  "Split footerLine TAB = [''X'', '''', '''', '''', ''Y'', ''Z'', ''W'', ''Page 2 of 3'']"
  by code_simp

lemma footerLine_isPageFooter: "isPageFooter (Split footerLine TAB)"
  by code_simp

lemma getCSV_footerPages:
  "getCSV footerPages = ((1234567890, [recordHeader, rowFields], None), [])"
  by code_simp

theorem page_footer_is_sentinel_witness:
  "isPageFooter (Split footerLine TAB)
   \<and> Split footerLine TAB = [''X'', '''', '''', '''', ''Y'', ''Z'', ''W'', ''Page 2 of 3'']
   \<and> parseLine footerLine = ([], Some EOF)
   \<and> Split footerLine TAB \<notin> set (fst (snd (fst (getCSV footerPages))))
   \<and> getCSV footerPages = ((1234567890, [recordHeader, rowFields], None), [])"
proof -
  note sentinel = page_footer_is_sentinel [OF footerLine_isPageFooter, of footerPages]
  show ?thesis
    by (intro conjI footerLine_isPageFooter footerLine_fields getCSV_footerPages
          sentinel [THEN conjunct1] sentinel [THEN conjunct2])
qed

text \<open>
  The account number stays what the second line of the first page set it to: the later
  lines and pages do not assign it.
\<close>

lemma firstPage_num_from2: "num (fst (firstPage st 2 ls)) = num st"
proof (cases ls)
  case Nil
  then show ?thesis by simp
next
  case (Cons t ls')
  obtain st' where "firstPage st 2 (t # ls') = firstPage st' 3 ls'" "num st' = num st"
    using firstPage_line2 by blast
  with Cons show ?thesis by (simp add: firstPage_rows)
qed

lemma laterPage_num: "num (fst (laterPage st 0 ls)) = num st"
proof (cases ls)
  case Nil
  then show ?thesis by simp
next
  case (Cons t ls')
  obtain st' where "laterPage st 0 (t # ls') = laterPage st' 1 ls'" "num st' = num st"
    using laterPage_line0 by blast
  with Cons show ?thesis by (simp add: laterPage_rows)
qed

lemma pagesFrom_num: "1 \<le> i \<Longrightarrow> num (fst (pagesFrom st i pages)) = num st"
proof (induction pages arbitrary: st i)
  case Nil
  then show ?case by simp
next
  case (Cons page pages)
  obtain st1 e where pg: "laterPage st 0 (scanLines page) = (st1, e)"
    by (cases "laterPage st 0 (scanLines page)")
  then have n1: "num st1 = num st"
    using laterPage_num [of st "scanLines page"] by simp
  show ?case
  proof (cases e)
    case None
    have "1 \<le> i + 1" by simp
    from Cons.IH [OF this, of st1] Cons.prems pg None n1 show ?thesis by simp
  next
    case (Some err)
    with Cons.prems pg n1 show ?thesis by simp
  qed
qed

lemma card_line_parses:
  "HasPrefix ''CARD 1234567890'' ''CARD ''
   \<and> Split ''CARD 1234567890'' (CHR '' '') = [''CARD'', ''1234567890'']
   \<and> ParseInt ''1234567890'' = (1234567890, None)"
  by code_simp

lemma firstPage_card_line:
  "firstPage st 1 (''CARD 1234567890'' # ls) = firstPage (st\<lparr>num := 1234567890\<rparr>) 2 ls"
  using card_line_parses by simp

lemma getCSV_card_number:
  assumes "scanLines page = l0 # ''CARD 1234567890'' # ls"
  shows "fst (fst (getCSV (page # pages))) = 1234567890"
proof -
  let ?init = "\<lparr>num = - 1, records = [recordHeader], warnings = []\<rparr>"
  obtain st0 where s0: "firstPage ?init 0 (l0 # ''CARD 1234567890'' # ls)
      = firstPage st0 1 (''CARD 1234567890'' # ls)"
    using firstPage_line0 by blast
  obtain st1 e where pg: "firstPage ?init 0 (scanLines page) = (st1, e)"
    by (cases "firstPage ?init 0 (scanLines page)")
  have "firstPage ?init 0 (scanLines page) = firstPage st0 1 (''CARD 1234567890'' # ls)"
    unfolding assms by (rule s0)
  also have "\<dots> = firstPage (st0\<lparr>num := 1234567890\<rparr>) 2 ls"
    by (rule firstPage_card_line)
  finally have "st1 = fst (firstPage (st0\<lparr>num := 1234567890\<rparr>) 2 ls)"
    using pg by (metis fst_conv)
  then have n1: "num st1 = 1234567890"
    by (simp add: firstPage_num_from2)
  show ?thesis
  proof (cases e)
    case None
    have "num (fst (pagesFrom st1 1 pages)) = num st1"
      by (rule pagesFrom_num) simp
    with pg None n1 show ?thesis
      by (cases "pagesFrom st1 1 pages") (auto simp: getCSV_def split: option.splits)
  next
    case (Some err)
    with pg n1 show ?thesis by (simp add: getCSV_def)
  qed
qed

text \<open>
  Claim C7. With the second line \<open>CARD 1234567890\<close> the account number is 1234567890.
  With the second line \<open>CARD \<close> the token after the prefix is empty, \<open>ParseInt\<close> fails
  on it and returns 0, and the assignment \<open>num, err = strconv.ParseInt(...)\<close> stores that
  0: one warning is logged, the records go on, and the account number returned is 0, not
  the initial \<open>-1\<close>.
\<close>

theorem getCSV_card_line:
  "getCSV [pageHead ''CARD 1234567890''] = ((1234567890, [recordHeader], None), [])
   \<and> Split ''CARD '' (CHR '' '') = [''CARD'', '''']
   \<and> ParseInt '''' = (0, Some ErrSyntax)
   \<and> getCSV [pageHead ''CARD ''] =
       ((0, [recordHeader], None), [Warn ''error reading account number'' 1 ''CARD ''])"
  by code_simp

section \<open>Properties of the entry point\<close>

lemma pageText_Some:
  assumes "pageText lib rd i \<noteq> None"
  shows "\<exists>pg cs t s. GetPage lib rd i = Inr pg \<and> GetContentStreams lib pg = Inr cs
           \<and> extractText (Parse lib (foldl (\<lambda>s cstream. s @ cstream @ [NL]) '''' cs))
               = Returns (t, None)
           \<and> DecodeString lib t = Inr s \<and> pageText lib rd i = Some (TrimSpace lib s)"
  using assms
  by (auto simp: pageText_def split: sum.splits outcome.splits prod.splits option.splits)

lemma pagesLoop_prefix:
  "list_all (\<lambda>i. pageText lib rd i \<noteq> None) pre \<Longrightarrow>
   pagesLoop lib rd (pre @ rest) =
     (case pagesLoop lib rd rest of
        Returns (pages, None) \<Rightarrow> Returns (map (\<lambda>i. the (pageText lib rd i)) pre @ pages, None)
      | other \<Rightarrow> other)"
proof (induction pre)
  case Nil
  show ?case
    by (simp split: outcome.splits prod.splits option.splits)
next
  case (Cons a pre)
  from Cons.prems have a: "pageText lib rd a \<noteq> None"
    and pre: "list_all (\<lambda>i. pageText lib rd i \<noteq> None) pre" by simp_all
  from pageText_Some [OF a] obtain pg cs t s where
    steps: "GetPage lib rd a = Inr pg" "GetContentStreams lib pg = Inr cs"
      "extractText (Parse lib (foldl (\<lambda>s cstream. s @ cstream @ [NL]) '''' cs)) = Returns (t, None)"
      "DecodeString lib t = Inr s" "pageText lib rd a = Some (TrimSpace lib s)"
    by blast
  show ?case
    using Cons.IH [OF pre] steps
    by (simp split: outcome.splits prod.splits option.splits)
qed

lemma extractPDFText_at_page:
  assumes reach: "reachesPage lib r rd k"
    and num: "GetNumPages lib rd = Inr n"
    and fails: "pagesLoop lib rd (k # [k + 1..n]) = res"
    and bad: "\<And>pages. res \<noteq> Returns (pages, None)"
  shows "extractPDFText lib r = res"
proof -
  from reach num have rd: "NewPdfReader lib r = Inr rd" and k: "1 \<le> k" "k \<le> n"
    and pre: "list_all (\<lambda>i. pageText lib rd i \<noteq> None) [1..k - 1]"
    by (simp_all add: reachesPage_def)
  have upto: "[1..n] = [1..k - 1] @ k # [k + 1..n]"
    using k by (rule upto_split3)
  have "pagesLoop lib rd ([1..k - 1] @ k # [k + 1..n]) =
      (case res of
         Returns (pages, None) \<Rightarrow> Returns (map (\<lambda>i. the (pageText lib rd i)) [1..k - 1] @ pages, None)
       | other \<Rightarrow> other)"
    using pagesLoop_prefix [OF pre, of "k # [k + 1..n]"] by (simp only: fails)
  also have "\<dots> = res"
    using bad by (cases res) (auto split: prod.splits option.splits)
  finally have "pagesLoop lib rd [1..n] = res"
    by (simp only: upto [symmetric])
  with rd num k show ?thesis
    by (simp add: extractPDFText_def)
qed

lemma extractPDFText_all_pages:
  assumes "NewPdfReader lib r = Inr rd" "GetNumPages lib rd = Inr n" "0 \<le> n"
    and "list_all (\<lambda>i. pageText lib rd i \<noteq> None) [1..n]"
  shows "extractPDFText lib r = Returns (pageTexts lib rd n, None)"
  using assms pagesLoop_prefix [of lib rd "[1..n]" "[]"]
  by (simp add: extractPDFText_def pageTexts_def)

lemma ParsePDF_extract_error:
  "extractPDFText lib r = Returns (pages, Some err) \<Longrightarrow>
   ParsePDF lib r = Returns (zeroTransactionData, Some err)"
  by (simp add: ParsePDF_def)

lemma ParsePDF_extract_panic:
  "extractPDFText lib r = Panics p \<Longrightarrow> ParsePDF lib r = Panics p"
  by (simp add: ParsePDF_def)

lemma ParsePDF_page_error:
  assumes "reachesPage lib r rd k"
    and "\<And>rest. pagesLoop lib rd (k # rest) = Returns ([], Some err)"
  shows "ParsePDF lib r = Returns (zeroTransactionData, Some err)"
proof -
  from assms(1) obtain n where num: "GetNumPages lib rd = Inr n"
    by (auto simp: reachesPage_def split: sum.splits)
  have "extractPDFText lib r = Returns ([], Some err)"
    using extractPDFText_at_page [OF assms(1) num assms(2)] by simp
  then show ?thesis by (rule ParsePDF_extract_error)
qed

lemma ParsePDF_page_panic:
  assumes "reachesPage lib r rd k"
    and "\<And>rest. pagesLoop lib rd (k # rest) = Panics p"
  shows "ParsePDF lib r = Panics p"
proof -
  from assms(1) obtain n where num: "GetNumPages lib rd = Inr n"
    by (auto simp: reachesPage_def split: sum.splits)
  have "extractPDFText lib r = Panics p"
    using extractPDFText_at_page [OF assms(1) num assms(2)] by simp
  then show ?thesis by (rule ParsePDF_extract_panic)
qed

text \<open>
  Claim C10 as stated fails: when the text reconstruction of a page panics (here the
  second page moves the text matrix to x = 1200, a coordinate that \<open>findPositionIdx\<close>
  rejects), \<open>ParsePDF\<close> does not return the zero value and an error: it returns nothing,
  the panic goes on to its caller.
\<close>

theorem ParsePDF_panics:
  "ParsePDF (docLib farRightOps) () = Panics (InvalidPos 1200)"
  by code_simp

text \<open>
  Claim C10, amended. Whenever a stage fails by returning an error, \<open>ParsePDF\<close> returns
  that error together with the zero value (account number 0, no records): when the reader
  or the page count fails; when on a page that the loop reaches the page lookup, the
  content streams, the parser, the text reconstruction (the operand checks of \<open>TJ\<close> and
  \<open>Tj\<close>) or the decoder fails; and when every page succeeds and the table assembly fails,
  whatever account number and records the assembly had reached. Whenever \<open>ParsePDF\<close>
  returns an error, the data is the zero value. When the text reconstruction of a page that
  the loop reaches panics, \<open>ParsePDF\<close> panics with it.
\<close>

theorem ParsePDF_stage_failure:
  "(ParsePDF lib r = Returns (td, Some err) \<longrightarrow>
      td = zeroTransactionData \<and> AccountNumber td = 0 \<and> Transactions td = [])
   \<and> (NewPdfReader lib r = Inl err \<longrightarrow>
        ParsePDF lib r = Returns (zeroTransactionData, Some err))
   \<and> (NewPdfReader lib r = Inr rd \<and> GetNumPages lib rd = Inl err \<longrightarrow>
        ParsePDF lib r = Returns (zeroTransactionData, Some err))
   \<and> (reachesPage lib r rd k \<and> GetPage lib rd k = Inl err \<longrightarrow>
        ParsePDF lib r = Returns (zeroTransactionData, Some err))
   \<and> (reachesPage lib r rd k \<and> GetPage lib rd k = Inr pg
        \<and> GetContentStreams lib pg = Inl err \<longrightarrow>
        ParsePDF lib r = Returns (zeroTransactionData, Some err))
   \<and> (reachesPage lib r rd k \<and> GetPage lib rd k = Inr pg
        \<and> GetContentStreams lib pg = Inr cs
        \<and> Parse lib (foldl (\<lambda>s cstream. s @ cstream @ [NL]) '''' cs) = Inl err \<longrightarrow>
        ParsePDF lib r = Returns (zeroTransactionData, Some err))
   \<and> (reachesPage lib r rd k \<and> GetPage lib rd k = Inr pg
        \<and> GetContentStreams lib pg = Inr cs
        \<and> extractText (Parse lib (foldl (\<lambda>s cstream. s @ cstream @ [NL]) '''' cs))
            = Returns (t, Some err) \<longrightarrow>
        ParsePDF lib r = Returns (zeroTransactionData, Some err))
   \<and> (reachesPage lib r rd k \<and> GetPage lib rd k = Inr pg
        \<and> GetContentStreams lib pg = Inr cs
        \<and> extractText (Parse lib (foldl (\<lambda>s cstream. s @ cstream @ [NL]) '''' cs))
            = Returns (t, None)
        \<and> DecodeString lib t = Inl err \<longrightarrow>
        ParsePDF lib r = Returns (zeroTransactionData, Some err))
   \<and> (NewPdfReader lib r = Inr rd \<and> GetNumPages lib rd = Inr n \<and> 0 \<le> n
        \<and> list_all (\<lambda>i. pageText lib rd i \<noteq> None) [1..n]
        \<and> fst (getCSV (pageTexts lib rd n)) = (acct, recs, Some err) \<longrightarrow>
        ParsePDF lib r = Returns (zeroTransactionData, Some err))
   \<and> (reachesPage lib r rd k \<and> GetPage lib rd k = Inr pg
        \<and> GetContentStreams lib pg = Inr cs
        \<and> extractText (Parse lib (foldl (\<lambda>s cstream. s @ cstream @ [NL]) '''' cs))
            = Panics p \<longrightarrow>
        ParsePDF lib r = Panics p)"
proof -
  have zero: "td = zeroTransactionData \<and> AccountNumber td = 0 \<and> Transactions td = []"
    if "ParsePDF lib r = Returns (td, Some err)"
  proof -
    from that have "td = zeroTransactionData"
      by (auto simp: ParsePDF_def split: outcome.splits prod.splits option.splits)
    then show ?thesis by (simp add: zeroTransactionData_def)
  qed
  have reader: "ParsePDF lib r = Returns (zeroTransactionData, Some err)"
    if "NewPdfReader lib r = Inl err"
    using that by (simp add: ParsePDF_def extractPDFText_def)
  have count: "ParsePDF lib r = Returns (zeroTransactionData, Some err)"
    if "NewPdfReader lib r = Inr rd" "GetNumPages lib rd = Inl err"
    using that by (simp add: ParsePDF_def extractPDFText_def)
  have lookup: "ParsePDF lib r = Returns (zeroTransactionData, Some err)"
    if "reachesPage lib r rd k" "GetPage lib rd k = Inl err"
    using that by (intro ParsePDF_page_error [of lib r rd k]) simp_all
  have streams: "ParsePDF lib r = Returns (zeroTransactionData, Some err)"
    if "reachesPage lib r rd k" "GetPage lib rd k = Inr pg" "GetContentStreams lib pg = Inl err"
    using that by (intro ParsePDF_page_error [of lib r rd k]) simp_all
  have text_err: "ParsePDF lib r = Returns (zeroTransactionData, Some err)"
    if "reachesPage lib r rd k" "GetPage lib rd k = Inr pg" "GetContentStreams lib pg = Inr cs"
      "extractText (Parse lib (foldl (\<lambda>s cstream. s @ cstream @ [NL]) '''' cs))
         = Returns (t, Some err)"
    using that by (intro ParsePDF_page_error [of lib r rd k]) simp_all
  have parser: "ParsePDF lib r = Returns (zeroTransactionData, Some err)"
    if "reachesPage lib r rd k" "GetPage lib rd k = Inr pg" "GetContentStreams lib pg = Inr cs"
      "Parse lib (foldl (\<lambda>s cstream. s @ cstream @ [NL]) '''' cs) = Inl err"
  proof -
    have "extractText (Parse lib (foldl (\<lambda>s cstream. s @ cstream @ [NL]) '''' cs))
        = Returns ('''', Some err)"
      using that(4) by (simp add: extractText_def)
    with that(1-3) show ?thesis
      by (intro ParsePDF_page_error [of lib r rd k]) simp_all
  qed
  have decoder: "ParsePDF lib r = Returns (zeroTransactionData, Some err)"
    if "reachesPage lib r rd k" "GetPage lib rd k = Inr pg" "GetContentStreams lib pg = Inr cs"
      "extractText (Parse lib (foldl (\<lambda>s cstream. s @ cstream @ [NL]) '''' cs))
         = Returns (t, None)"
      "DecodeString lib t = Inl err"
    using that by (intro ParsePDF_page_error [of lib r rd k]) simp_all
  have table: "ParsePDF lib r = Returns (zeroTransactionData, Some err)"
    if "NewPdfReader lib r = Inr rd" "GetNumPages lib rd = Inr n" "0 \<le> n"
      "list_all (\<lambda>i. pageText lib rd i \<noteq> None) [1..n]"
      "fst (getCSV (pageTexts lib rd n)) = (acct, recs, Some err)"
  proof -
    have "extractPDFText lib r = Returns (pageTexts lib rd n, None)"
      using that(1-4) by (rule extractPDFText_all_pages)
    with that(5) show ?thesis by (simp add: ParsePDF_def)
  qed
  have panics: "ParsePDF lib r = Panics p"
    if "reachesPage lib r rd k" "GetPage lib rd k = Inr pg" "GetContentStreams lib pg = Inr cs"
      "extractText (Parse lib (foldl (\<lambda>s cstream. s @ cstream @ [NL]) '''' cs)) = Panics p"
    using that by (intro ParsePDF_page_panic [of lib r rd k]) simp_all
  from zero reader count lookup streams parser text_err decoder table panics
  show ?thesis by blast
qed

lemma secondPage_reached:
  "reachesPage lookupFails () () 2"
  "reachesPage streamsFail () () 2"
  "reachesPage parserFails () () 2"
  "reachesPage (docLib stringTJOps) () () 2"
  "reachesPage decoderFails () () 2"
  "reachesPage (docLib farRightOps) () () 2"
  by code_simp+

lemma readerFails_call: "NewPdfReader readerFails () = Inl (LibraryError ''reader'')"
  by code_simp

lemma countFails_calls:
  "NewPdfReader countFails () = Inr ()"
  "GetNumPages countFails () = Inl (LibraryError ''count'')"
  by code_simp+

lemma lookupFails_call: "GetPage lookupFails () 2 = Inl (LibraryError ''page'')"
  by code_simp

lemma streamsFail_calls:
  "GetPage streamsFail () 2 = Inr 2"
  "GetContentStreams streamsFail 2 = Inl (LibraryError ''streams'')"
  by code_simp+

lemma parserFails_calls:
  "GetPage parserFails () 2 = Inr 2"
  "GetContentStreams parserFails 2 = Inr [''2'']"
  "Parse parserFails (foldl (\<lambda>s cstream. s @ cstream @ [NL]) '''' [''2''])
     = Inl (LibraryError ''parse'')"
  by code_simp+

lemma stringTJ_calls:
  "GetPage (docLib stringTJOps) () 2 = Inr 2"
  "GetContentStreams (docLib stringTJOps) 2 = Inr [''2'']"
  "extractText (Parse (docLib stringTJOps) (foldl (\<lambda>s cstream. s @ cstream @ [NL]) '''' [''2'']))
     = Returns ('''', Some (NoArray ''*core.PdfObjectString''))"
  by code_simp+

lemma decoderFails_calls:
  "GetPage decoderFails () 2 = Inr 2"
  "GetContentStreams decoderFails 2 = Inr [''2'']"
  "extractText (Parse decoderFails (foldl (\<lambda>s cstream. s @ cstream @ [NL]) '''' [''2'']))
     = Returns (badLineText, None)"
  "DecodeString decoderFails badLineText = Inl (LibraryError ''decode'')"
  by code_simp+

lemma farRight_calls:
  "GetPage (docLib farRightOps) () 2 = Inr 2"
  "GetContentStreams (docLib farRightOps) 2 = Inr [''2'']"
  "extractText (Parse (docLib farRightOps) (foldl (\<lambda>s cstream. s @ cstream @ [NL]) '''' [''2'']))
     = Panics (InvalidPos 1200)"
  by code_simp+

lemma badLine_calls:
  "NewPdfReader (docLib badLineOps) () = Inr ()"
  "GetNumPages (docLib badLineOps) () = Inr 2"
  "list_all (\<lambda>i. pageText (docLib badLineOps) () i \<noteq> None) [1..2]"
  "pageTexts (docLib badLineOps) () 2 = [firstPageText, badLineText]"
  by code_simp+

lemma badLine_pagesFrom:
  "pagesFrom \<lparr>num = - 1, records = [recordHeader], warnings = []\<rparr> 0 [firstPageText, badLineText] =
     (\<lparr>num = 123, records = [recordHeader, rowFields], warnings = []\<rparr>,
      Some (InvalidLine ''bad line''))"
  by code_simp

lemma badLine_getCSV:
  "fst (getCSV (pageTexts (docLib badLineOps) () 2)) = (123, [], Some (InvalidLine ''bad line''))"
  by code_simp

theorem ParsePDF_stage_failure_witness:
  "ParsePDF readerFails () = Returns (zeroTransactionData, Some (LibraryError ''reader''))
   \<and> ParsePDF countFails () = Returns (zeroTransactionData, Some (LibraryError ''count''))
   \<and> ParsePDF lookupFails () = Returns (zeroTransactionData, Some (LibraryError ''page''))
   \<and> ParsePDF streamsFail () = Returns (zeroTransactionData, Some (LibraryError ''streams''))
   \<and> ParsePDF parserFails () = Returns (zeroTransactionData, Some (LibraryError ''parse''))
   \<and> ParsePDF (docLib stringTJOps) ()
       = Returns (zeroTransactionData, Some (NoArray ''*core.PdfObjectString''))
   \<and> ParsePDF decoderFails () = Returns (zeroTransactionData, Some (LibraryError ''decode''))
   \<and> pageTexts (docLib badLineOps) () 2 = [firstPageText, badLineText]
   \<and> pagesFrom \<lparr>num = - 1, records = [recordHeader], warnings = []\<rparr> 0
         [firstPageText, badLineText] =
       (\<lparr>num = 123, records = [recordHeader, rowFields], warnings = []\<rparr>,
        Some (InvalidLine ''bad line''))
   \<and> ParsePDF (docLib badLineOps) () = Returns (zeroTransactionData, Some (InvalidLine ''bad line''))
   \<and> AccountNumber zeroTransactionData = 0 \<and> Transactions zeroTransactionData = []
   \<and> ParsePDF (docLib farRightOps) () = Panics (InvalidPos 1200)"
proof -
  note c1 = ParsePDF_stage_failure [THEN conjunct1, rule_format]
  note c2 = ParsePDF_stage_failure [THEN conjunct2, THEN conjunct1, rule_format]
  note c3 = ParsePDF_stage_failure [THEN conjunct2, THEN conjunct2, THEN conjunct1, rule_format]
  note c4 = ParsePDF_stage_failure [THEN conjunct2, THEN conjunct2, THEN conjunct2,
      THEN conjunct1, rule_format]
  note c5 = ParsePDF_stage_failure [THEN conjunct2, THEN conjunct2, THEN conjunct2,
      THEN conjunct2, THEN conjunct1, rule_format]
  note c6 = ParsePDF_stage_failure [THEN conjunct2, THEN conjunct2, THEN conjunct2,
      THEN conjunct2, THEN conjunct2, THEN conjunct1, rule_format]
  note c7 = ParsePDF_stage_failure [THEN conjunct2, THEN conjunct2, THEN conjunct2,
      THEN conjunct2, THEN conjunct2, THEN conjunct2, THEN conjunct1, rule_format]
  note c8 = ParsePDF_stage_failure [THEN conjunct2, THEN conjunct2, THEN conjunct2,
      THEN conjunct2, THEN conjunct2, THEN conjunct2, THEN conjunct2, THEN conjunct1, rule_format]
  note c9 = ParsePDF_stage_failure [THEN conjunct2, THEN conjunct2, THEN conjunct2,
      THEN conjunct2, THEN conjunct2, THEN conjunct2, THEN conjunct2, THEN conjunct2,
      THEN conjunct1, rule_format]
  note c10 = ParsePDF_stage_failure [THEN conjunct2, THEN conjunct2, THEN conjunct2,
      THEN conjunct2, THEN conjunct2, THEN conjunct2, THEN conjunct2, THEN conjunct2,
      THEN conjunct2, rule_format]
  have reader: "ParsePDF readerFails () = Returns (zeroTransactionData, Some (LibraryError ''reader''))"
    by (rule c2) (rule readerFails_call)
  have count: "ParsePDF countFails () = Returns (zeroTransactionData, Some (LibraryError ''count''))"
    by (rule c3 [where rd = "()"]) (intro conjI countFails_calls)
  have lookup: "ParsePDF lookupFails () = Returns (zeroTransactionData, Some (LibraryError ''page''))"
    by (rule c4 [where rd = "()" and k = 2]) (intro conjI secondPage_reached(1) lookupFails_call)
  have streams: "ParsePDF streamsFail () = Returns (zeroTransactionData, Some (LibraryError ''streams''))"
    by (rule c5 [where rd = "()" and k = 2 and pg = 2]) (intro conjI secondPage_reached(2) streamsFail_calls)
  have parser: "ParsePDF parserFails () = Returns (zeroTransactionData, Some (LibraryError ''parse''))"
    by (rule c6 [where rd = "()" and k = 2 and pg = 2 and cs = "[''2'']"]) (intro conjI secondPage_reached(3) parserFails_calls)
  have operand: "ParsePDF (docLib stringTJOps) ()
      = Returns (zeroTransactionData, Some (NoArray ''*core.PdfObjectString''))"
    by (rule c7 [where rd = "()" and k = 2 and pg = 2 and cs = "[''2'']" and t = "''''"]) (intro conjI secondPage_reached(4) stringTJ_calls)
  have decoder: "ParsePDF decoderFails () = Returns (zeroTransactionData, Some (LibraryError ''decode''))"
    by (rule c8 [where rd = "()" and k = 2 and pg = 2 and cs = "[''2'']" and t = badLineText]) (intro conjI secondPage_reached(5) decoderFails_calls)
  have table: "ParsePDF (docLib badLineOps) () = Returns (zeroTransactionData, Some (InvalidLine ''bad line''))"
    by (rule c9 [where n = 2 and rd = "()" and acct = 123 and recs = "[]"]) (intro conjI badLine_calls(1-3) badLine_getCSV, simp)
  have zero: "AccountNumber zeroTransactionData = 0 \<and> Transactions zeroTransactionData = []"
    using c1 [OF table] by simp
  have panics: "ParsePDF (docLib farRightOps) () = Panics (InvalidPos 1200)"
    by (rule c10 [where rd = "()" and k = 2 and pg = 2 and cs = "[''2'']"]) (intro conjI secondPage_reached(6) farRight_calls)
  from zero show ?thesis
    by (intro conjI reader count lookup streams parser operand decoder badLine_calls(4)
          badLine_pagesFrom table panics) simp_all
qed

end
